theory Spec2Isabelle
  imports Main "HOL-Library.Word" "HOL-Library.Log_Nat"
begin

section \<open>JavaScript values\<close>

text \<open>
  The module \<^verbatim>\<open>preload.js\<close> holds three functions over plain JavaScript data:
  \<^verbatim>\<open>transformToRows\<close>, \<^verbatim>\<open>academicYear\<close> and \<^verbatim>\<open>currentAcademicYear\<close>.
  They are embedded over a datatype of JavaScript values; the built-ins they call
  (\<^verbatim>\<open>parseInt\<close>, \<^verbatim>\<open>Date.UTC\<close>, \<^verbatim>\<open>toISOString\<close>, \<^verbatim>\<open>Array.from\<close>, ...) follow the
  algorithms of the ECMAScript language specification.

  A string is its sequence of UTF-16 code units. \<open>js\<close> turns an ASCII literal into
  such a sequence.
\<close>

type_synonym code_unit = "16 word"

type_synonym jsstring = "code_unit list"

definition js :: "string \<Rightarrow> jsstring" where
  "js s = map of_char s"

text \<open>
  Numbers: \<open>NaN\<close>, the two infinities and the integer-valued doubles, \<open>Num n\<close> being the
  double whose value is the integer \<open>n\<close>. Numbers with a fractional part are not part of
  the model, and \<open>-0\<close> is identified with \<open>0\<close> (the three functions cannot tell them
  apart: both print as \<^verbatim>\<open>"0"\<close>, both are falsy, and \<^verbatim>\<open>Date.UTC\<close> truncates both to 0).
\<close>

datatype jsnum = NaN | Num int | PosInfinity | NegInfinity

text \<open>
  Objects are plain data objects (prototype \<^verbatim>\<open>Object.prototype\<close>, data properties
  only), given by their own enumerable string-keyed properties in the order in which
  \<^verbatim>\<open>Object.keys\<close> enumerates them; the keys of one object are pairwise distinct.
  An array whose indices below its length are all present is \<open>JArr\<close> of its elements.
  An array with holes is \<open>JSparse\<close> of its slots, \<open>None\<close> at an index that is absent, so
  that \<^verbatim>\<open>[ , 7]\<close> is \<open>JSparse [None, Some (JNum (Num 7))]\<close>.
\<close>

datatype jsval =
    JUndefined
  | JNull
  | JBool bool
  | JNum jsnum
  | JStr jsstring
  | JArr "jsval list"
  | JSparse "jsval option list"
  | JObj "(jsstring \<times> jsval) list"

datatype js_error = RangeError | TypeError

datatype 'a completion = Returns 'a | Throws js_error

definition ToBoolean :: "jsval \<Rightarrow> bool" where
  "ToBoolean v =
     (case v of
        JUndefined \<Rightarrow> False
      | JNull \<Rightarrow> False
      | JBool b \<Rightarrow> b
      | JNum x \<Rightarrow> x \<noteq> NaN \<and> x \<noteq> Num 0
      | JStr s \<Rightarrow> s \<noteq> []
      | JArr xs \<Rightarrow> True
      | JSparse es \<Rightarrow> True
      | JObj ps \<Rightarrow> True)"

definition typeof :: "jsval \<Rightarrow> jsstring" where
  "typeof v =
     (case v of
        JUndefined \<Rightarrow> js ''undefined''
      | JNull \<Rightarrow> js ''object''
      | JBool b \<Rightarrow> js ''boolean''
      | JNum x \<Rightarrow> js ''number''
      | JStr s \<Rightarrow> js ''string''
      | JArr xs \<Rightarrow> js ''object''
      | JSparse es \<Rightarrow> js ''object''
      | JObj ps \<Rightarrow> js ''object'')"

text \<open>\<^verbatim>\<open>a || b\<close> and \<^verbatim>\<open>a ?? b\<close>.\<close>

definition js_or :: "jsval \<Rightarrow> jsval \<Rightarrow> jsval" where
  "js_or a b = (if ToBoolean a then a else b)"

definition nullish :: "jsval \<Rightarrow> jsval \<Rightarrow> jsval" where
  "nullish a b = (if a = JUndefined \<or> a = JNull then b else a)"

section \<open>Numbers and strings\<close>

subsection \<open>Decimal digits\<close>

text \<open>The decimal digits of a natural number, most significant first.\<close>

fun digits :: "nat \<Rightarrow> nat list" where
  "digits n = (if n < 10 then [n] else digits (n div 10) @ [n mod 10])"

declare digits.simps [simp del]

definition digit_char :: "nat \<Rightarrow> code_unit" where
  "digit_char d = of_nat (48 + d)"

definition decimal :: "nat \<Rightarrow> jsstring" where
  "decimal n = map digit_char (digits n)"

subsection \<open>Rounding an integer to a double\<close>

text \<open>
  The Number value of a mathematical integer: the nearest double, ties to the even
  significand (53 bits), and an infinity from \<open>2^1024\<close> on. Integers below \<open>2^53\<close>
  in magnitude are doubles already.
\<close>

definition round_to_double :: "int \<Rightarrow> jsnum" where
  "round_to_double n =
     (let a = \<bar>n\<bar> in
      if a < 2 ^ 53 then Num n
      else
        let e = nat (bitlen a - 53);
            q = a div 2 ^ e;
            r = a mod 2 ^ e;
            h = 2 ^ (e - 1);
            q' = (if h < r \<or> (r = h \<and> odd q) then q + 1 else q);
            m = q' * 2 ^ e
        in if 2 ^ 1024 \<le> m then (if n < 0 then NegInfinity else PosInfinity)
           else Num (if n < 0 then - m else m))"

subsection \<open>Number::toString\<close>

text \<open>
  \<^verbatim>\<open>Number::toString\<close> prints the shortest decimal that reads back as the same double
  (the closest one when several are that short). For a double \<open>x\<close> with \<open>d\<close> digits,
  \<open>shortest_from x d k\<close> looks for such a decimal with \<open>k\<close> significant digits, then
  \<open>k + 1\<close>, ...: the two multiples of \<open>10^(d - k)\<close> around \<open>x\<close> are the candidates.
\<close>

definition rounds_to :: "nat \<Rightarrow> nat \<Rightarrow> bool" where
  "rounds_to c x = (round_to_double (int c) = Num (int x))"

function shortest_from :: "nat \<Rightarrow> nat \<Rightarrow> nat \<Rightarrow> nat" where
  "shortest_from x d k =
     (if d \<le> k then x
      else
        let p = 10 ^ (d - k); lo = (x div p) * p; hi = lo + p in
        if rounds_to lo x \<and> rounds_to hi x then
          (if x - lo < hi - x then lo
           else if hi - x < x - lo then hi
           else if even (x div p) then lo else hi)
        else if rounds_to lo x then lo
        else if rounds_to hi x then hi
        else shortest_from x d (Suc k))"
  by pat_completeness auto

termination shortest_from
  by (relation "measure (\<lambda>(x, d, k). d - k)") auto

declare shortest_from.simps [simp del]

text \<open>
  A decimal of more than 21 digits is printed with an exponent: its significant
  digits \<^verbatim>\<open>d.ddd\<close>, then \<^verbatim>\<open>e+\<close> and the number of digits after the first.
\<close>

definition exponent_form :: "nat \<Rightarrow> jsstring" where
  "exponent_form c =
     (let ds = digits c;
          n = length ds;
          s = rev (dropWhile (\<lambda>d. d = 0) (rev ds))
      in (case s of
            [] \<Rightarrow> []
          | [d] \<Rightarrow> [digit_char d]
          | d # rest \<Rightarrow> digit_char d # js ''.'' @ map digit_char rest)
         @ js ''e+'' @ decimal (n - 1))"

definition nat_toString :: "nat \<Rightarrow> jsstring" where
  "nat_toString x =
     (let c = (if x < 2 ^ 53 then x else shortest_from x (length (digits x)) 1)
      in if c < 10 ^ 21 then decimal c else exponent_form c)"

definition Number_toString :: "jsnum \<Rightarrow> jsstring" where
  "Number_toString x =
     (case x of
        NaN \<Rightarrow> js ''NaN''
      | Num n \<Rightarrow> (if n < 0 then js ''-'' @ nat_toString (nat (- n)) else nat_toString (nat n))
      | PosInfinity \<Rightarrow> js ''Infinity''
      | NegInfinity \<Rightarrow> js ''-Infinity'')"

text \<open>
  The decimal string form of an integer, as the claims about \<^verbatim>\<open>academicYear\<close> speak
  of it: a minus sign for a negative one, then the digits.
\<close>

definition decimal_string :: "int \<Rightarrow> jsstring" where
  "decimal_string n = (if n < 0 then js ''-'' @ decimal (nat (- n)) else decimal (nat n))"

subsection \<open>ToString\<close>

text \<open>
  \<^verbatim>\<open>ToString\<close> of a value. An array prints through \<^verbatim>\<open>Array.prototype.join\<close>
  (\<^verbatim>\<open>undefined\<close> and \<^verbatim>\<open>null\<close> elements, and holes, print as the empty string). A
  plain object prints as \<^verbatim>\<open>[object Object]\<close>, unless an own data property
  \<^verbatim>\<open>toString\<close> hides the inherited method: then no method yields a primitive and the
  conversion throws a \<^verbatim>\<open>TypeError\<close>.
\<close>

fun ToString :: "jsval \<Rightarrow> js_error + jsstring"
  and join :: "jsval list \<Rightarrow> js_error + jsstring"
  and join_slots :: "jsval option list \<Rightarrow> js_error + jsstring" where
  "ToString JUndefined = Inr (js ''undefined'')"
| "ToString JNull = Inr (js ''null'')"
| "ToString (JBool b) = Inr (if b then js ''true'' else js ''false'')"
| "ToString (JNum x) = Inr (Number_toString x)"
| "ToString (JStr s) = Inr s"
| "ToString (JArr xs) = join xs"
| "ToString (JSparse es) = join_slots es"
| "ToString (JObj ps) =
     (if js ''toString'' \<in> fst ` set ps then Inl TypeError else Inr (js ''[object Object]''))"
| "join [] = Inr []"
| "join (x # xs) =
     (case (if x = JUndefined \<or> x = JNull then Inr [] else ToString x) of
        Inl e \<Rightarrow> Inl e
      | Inr s \<Rightarrow>
          (if xs = [] then Inr s
           else (case join xs of
                   Inl e \<Rightarrow> Inl e
                 | Inr t \<Rightarrow> Inr (s @ js '','' @ t))))"
| "join_slots [] = Inr []"
| "join_slots (None # es) =
     (if es = [] then Inr []
      else (case join_slots es of
              Inl e \<Rightarrow> Inl e
            | Inr t \<Rightarrow> Inr (js '','' @ t)))"
| "join_slots (Some x # es) =
     (case (if x = JUndefined \<or> x = JNull then Inr [] else ToString x) of
        Inl e \<Rightarrow> Inl e
      | Inr s \<Rightarrow>
          (if es = [] then Inr s
           else (case join_slots es of
                   Inl e \<Rightarrow> Inl e
                 | Inr t \<Rightarrow> Inr (s @ js '','' @ t))))"

subsection \<open>parseInt\<close>

text \<open>
  \<^verbatim>\<open>parseInt(input, 10)\<close>: the input as a string, leading white space and line
  terminators trimmed, an optional sign, then the longest prefix of decimal digits.
  No digit gives \<open>NaN\<close>; otherwise the result is the Number value of the signed integer.
  (Radix 10 strips no \<^verbatim>\<open>0x\<close> prefix.)
\<close>

definition is_white_space :: "code_unit \<Rightarrow> bool" where
  "is_white_space c =
     (c \<in> {0x0009, 0x000A, 0x000B, 0x000C, 0x000D, 0x0020, 0x00A0, 0x1680,
            0x2028, 0x2029, 0x202F, 0x205F, 0x3000, 0xFEFF}
      \<or> (0x2000 \<le> c \<and> c \<le> 0x200A))"

definition is_digit :: "code_unit \<Rightarrow> bool" where
  "is_digit c = (0x30 \<le> c \<and> c \<le> 0x39)"

definition digit_value :: "code_unit \<Rightarrow> nat" where
  "digit_value c = unat c - 48"

definition digits_value :: "jsstring \<Rightarrow> nat" where
  "digits_value Z = foldl (\<lambda>a c. 10 * a + digit_value c) 0 Z"

definition parseInt10 :: "jsstring \<Rightarrow> jsnum" where
  "parseInt10 inputString =
     (let S = dropWhile is_white_space inputString;
          sign = (if S \<noteq> [] \<and> hd S = 0x2D then - 1 else 1);
          S' = (if S \<noteq> [] \<and> (hd S = 0x2B \<or> hd S = 0x2D) then tl S else S);
          Z = takeWhile is_digit S'
      in if Z = [] then NaN else round_to_double (sign * int (digits_value Z)))"

definition parseInt :: "jsval \<Rightarrow> js_error + jsnum" where
  "parseInt v =
     (case ToString v of Inl e \<Rightarrow> Inl e | Inr inputString \<Rightarrow> Inr (parseInt10 inputString))"

text \<open>\<^verbatim>\<open>x + k\<close> for a number \<open>x\<close> and an integer \<open>k\<close>.\<close>

definition js_add :: "jsnum \<Rightarrow> int \<Rightarrow> jsnum" where
  "js_add x k = (case x of Num n \<Rightarrow> round_to_double (n + k) | _ \<Rightarrow> x)"

text \<open>\<^verbatim>\<open>s.split(sep)[0]\<close> for a separator of one code unit, and \<^verbatim>\<open>s.slice(-n)\<close>.\<close>

definition split_first :: "jsstring \<Rightarrow> jsstring \<Rightarrow> jsstring" where
  "split_first sep s = takeWhile (\<lambda>c. [c] \<noteq> sep) s"

definition slice_last :: "nat \<Rightarrow> jsstring \<Rightarrow> jsstring" where
  "slice_last n s = drop (length s - n) s"

subsection \<open>ToNumber and ToIntegerOrInfinity\<close>

text \<open>
  \<^verbatim>\<open>StringToNumber\<close> reads a string as a \<^verbatim>\<open>StringNumericLiteral\<close>: white space and
  line terminators on both sides of nothing at all (the value is 0), of a binary, octal
  or hexadecimal integer (\<^verbatim>\<open>0b\<close>, \<^verbatim>\<open>0o\<close>, \<^verbatim>\<open>0x\<close> and at least one digit, no sign), or
  of a decimal with an optional sign: \<^verbatim>\<open>Infinity\<close>, or digits with an optional fraction
  and an optional exponent, a digit standing before or after the point. Any other
  string is \<open>NaN\<close>.
\<close>

definition trim :: "jsstring \<Rightarrow> jsstring" where
  "trim s = rev (dropWhile is_white_space (rev (dropWhile is_white_space s)))"

definition radix_digit_value :: "code_unit \<Rightarrow> nat" where
  "radix_digit_value c =
     (if 0x30 \<le> c \<and> c \<le> 0x39 then unat c - 48
      else if 0x61 \<le> c \<and> c \<le> 0x66 then unat c - 87
      else if 0x41 \<le> c \<and> c \<le> 0x46 then unat c - 55
      else 16)"

definition radix_of_prefix :: "code_unit \<Rightarrow> nat" where
  "radix_of_prefix c =
     (if c = 0x62 \<or> c = 0x42 then 2
      else if c = 0x6F \<or> c = 0x4F then 8
      else if c = 0x78 \<or> c = 0x58 then 16
      else 0)"

text \<open>
  \<^verbatim>\<open>NonDecimalIntegerLiteral\<close>: the value of \<^verbatim>\<open>0b...\<close>, \<^verbatim>\<open>0o...\<close> or \<^verbatim>\<open>0x...\<close>, and
  \<open>None\<close> for a string that is none of them. (\<open>radix_digit_value\<close> is 16 on a code unit
  that is no digit, which is below no radix.)
\<close>

definition NonDecimalIntegerLiteral :: "jsstring \<Rightarrow> nat option" where
  "NonDecimalIntegerLiteral S =
     (case S of
        z # p # ds \<Rightarrow>
          (let b = radix_of_prefix p in
           if z = 0x30 \<and> b \<noteq> 0 \<and> ds \<noteq> [] \<and> list_all (\<lambda>c. radix_digit_value c < b) ds
           then Some (foldl (\<lambda>a c. b * a + radix_digit_value c) 0 ds)
           else None)
      | _ \<Rightarrow> None)"

text \<open>
  \<^verbatim>\<open>ExponentPart\<close>, when there is one: \<^verbatim>\<open>e\<close> or \<^verbatim>\<open>E\<close>, an optional sign and at least
  one digit. The exponent is 0 when nothing follows the digits of the literal.
\<close>

definition ExponentPart :: "jsstring \<Rightarrow> int option" where
  "ExponentPart E =
     (if E = [] then Some 0
      else if hd E = 0x65 \<or> hd E = 0x45 then
        (let X = tl E;
             ds = (if X \<noteq> [] \<and> (hd X = 0x2B \<or> hd X = 0x2D) then tl X else X)
         in if ds \<noteq> [] \<and> list_all is_digit ds
            then Some (if hd X = 0x2D then - int (digits_value ds) else int (digits_value ds))
            else None)
      else None)"

text \<open>
  \<^verbatim>\<open>StrUnsignedDecimalLiteral\<close> other than \<^verbatim>\<open>Infinity\<close>: the digits \<open>I\<close> before the
  point, the digits \<open>F\<close> after it, the exponent \<open>x\<close>. The value of the literal is
  \<open>m * 10 ^ k\<close> for the pair \<open>(m, k)\<close> returned: \<open>m\<close> is the number that the digits
  \<open>I @ F\<close> write, and \<open>k\<close> is \<open>x\<close> less the number of digits of \<open>F\<close>.
\<close>

definition StrUnsignedDecimalLiteral :: "jsstring \<Rightarrow> (nat \<times> int) option" where
  "StrUnsignedDecimalLiteral U =
     (let I = takeWhile is_digit U;
          R = dropWhile is_digit U;
          point = (R \<noteq> [] \<and> hd R = 0x2E);
          F = (if point then takeWhile is_digit (tl R) else []);
          E = (if point then dropWhile is_digit (tl R) else R)
      in if I = [] \<and> F = [] then None
         else (case ExponentPart E of
                 None \<Rightarrow> None
               | Some x \<Rightarrow> Some (digits_value (I @ F), x - int (length F))))"

text \<open>
  The Number value of a positive rational \<open>p / q\<close> is the double nearest to it, ties to
  the even significand. With \<open>2 ^ l \<le> p / q < 2 ^ (l + 1)\<close>, the doubles around \<open>p / q\<close>
  are the multiples of \<open>2 ^ e\<close> for \<open>e = l - 52\<close> (and for \<open>e = - 1074\<close>, the least
  exponent there is, when \<open>l - 52\<close> is below it); from \<open>2 ^ 1024\<close> on the Number value is
  an infinity.

  The model holds the integer-valued doubles only, and the caller of \<^verbatim>\<open>ToNumber\<close> on
  the path of the module, \<^verbatim>\<open>ToIntegerOrInfinity\<close>, truncates the double it gets.
  \<open>truncated_double p q\<close> is that double, truncated: the integer part of the Number
  value of \<open>p / q\<close>.
\<close>

definition floor_log2 :: "nat \<Rightarrow> nat \<Rightarrow> int" where
  "floor_log2 p q =
     (let b = bitlen (int p) - bitlen (int q)
      in if (if 0 \<le> b then q * 2 ^ nat b \<le> p else q \<le> p * 2 ^ nat (- b)) then b else b - 1)"

definition truncated_double :: "nat \<Rightarrow> nat \<Rightarrow> jsnum" where
  "truncated_double p q =
     (if p = 0 then Num 0
      else
        let e = max (floor_log2 p q - 52) (- 1074);
            N = (if e < 0 then p * 2 ^ nat (- e) else p);
            D = (if e < 0 then q else q * 2 ^ nat e);
            s = N div D;
            r = N mod D;
            s' = (if D < 2 * r \<or> (2 * r = D \<and> odd s) then s + 1 else s)
        in if e < 0 then Num (int (s' div 2 ^ nat (- e)))
           else if 2 ^ 1024 \<le> s' * 2 ^ nat e then PosInfinity
           else Num (int (s' * 2 ^ nat e)))"

text \<open>\<^verbatim>\<open>-x\<close> for a number \<open>x\<close>.\<close>

definition js_neg :: "jsnum \<Rightarrow> jsnum" where
  "js_neg x =
     (case x of
        NaN \<Rightarrow> NaN
      | Num n \<Rightarrow> Num (- n)
      | PosInfinity \<Rightarrow> NegInfinity
      | NegInfinity \<Rightarrow> PosInfinity)"

text \<open>
  \<^verbatim>\<open>StringToNumber\<close>, truncated toward zero: \<open>NaN\<close> for a string that is no numeric
  literal, an infinity, or the integer part of the double that the literal denotes.
\<close>

definition StringToNumber_truncated :: "jsstring \<Rightarrow> jsnum" where
  "StringToNumber_truncated str =
     (let S = trim str in
      if S = [] then Num 0
      else
        (case NonDecimalIntegerLiteral S of
           Some n \<Rightarrow> truncated_double n 1
         | None \<Rightarrow>
             (let U = (if hd S = 0x2B \<or> hd S = 0x2D then tl S else S);
                  a = (if U = js ''Infinity'' then PosInfinity
                       else (case StrUnsignedDecimalLiteral U of
                               None \<Rightarrow> NaN
                             | Some (m, k) \<Rightarrow>
                                 (if 0 \<le> k then truncated_double (m * 10 ^ nat k) 1
                                  else truncated_double m (10 ^ nat (- k)))))
              in if hd S = 0x2D then js_neg a else a)))"

text \<open>
  \<^verbatim>\<open>ToNumber\<close>, truncated toward zero. An array or object is first made a primitive:
  \<^verbatim>\<open>ToPrimitive\<close> asks \<^verbatim>\<open>valueOf\<close>, which gives the object back (or is an own data
  property, not a method), and then \<^verbatim>\<open>toString\<close>, so the primitive is the string of
  \<open>ToString\<close>, or the conversion throws as \<open>ToString\<close> does.
\<close>

definition ToNumber_truncated :: "jsval \<Rightarrow> js_error + jsnum" where
  "ToNumber_truncated v =
     (case v of
        JUndefined \<Rightarrow> Inr NaN
      | JNull \<Rightarrow> Inr (Num 0)
      | JBool b \<Rightarrow> Inr (Num (if b then 1 else 0))
      | JNum x \<Rightarrow> Inr x
      | JStr s \<Rightarrow> Inr (StringToNumber_truncated s)
      | _ \<Rightarrow> (case ToString v of
                Inl e \<Rightarrow> Inl e
              | Inr s \<Rightarrow> Inr (StringToNumber_truncated s)))"

text \<open>\<^verbatim>\<open>ToIntegerOrInfinity\<close>: \<open>NaN\<close> becomes 0, any other number is truncated.\<close>

definition ToIntegerOrInfinity :: "jsval \<Rightarrow> js_error + jsnum" where
  "ToIntegerOrInfinity v =
     (case ToNumber_truncated v of
        Inl e \<Rightarrow> Inl e
      | Inr x \<Rightarrow> Inr (if x = NaN then Num 0 else x))"

text \<open>\<^verbatim>\<open>ToLength\<close>: an integer from 0 to \<open>2^53 - 1\<close>.\<close>

definition ToLength :: "jsval \<Rightarrow> js_error + nat" where
  "ToLength v =
     (case ToIntegerOrInfinity v of
        Inl e \<Rightarrow> Inl e
      | Inr len \<Rightarrow>
          Inr (case len of
                 Num n \<Rightarrow> (if n \<le> 0 then 0 else min (nat n) (2 ^ 53 - 1))
               | PosInfinity \<Rightarrow> 2 ^ 53 - 1
               | _ \<Rightarrow> 0))"

section \<open>Dates\<close>

text \<open>
  A time value is a number of milliseconds since 1970-01-01T00:00:00Z. The
  definitions are those of the specification's section on Date objects, over \<open>int\<close>
  (\<open>div\<close> is the floor, \<open>mod\<close> the modulo of the specification).
\<close>

definition msPerDay :: int where
  "msPerDay = 86400000"

definition msPerHour :: int where
  "msPerHour = 3600000"

definition msPerMinute :: int where
  "msPerMinute = 60000"

definition msPerSecond :: int where
  "msPerSecond = 1000"

definition Day :: "int \<Rightarrow> int" where
  "Day t = t div msPerDay"

definition DaysInYear :: "int \<Rightarrow> int" where
  "DaysInYear y =
     (if y mod 4 \<noteq> 0 then 365
      else if y mod 100 \<noteq> 0 then 366
      else if y mod 400 \<noteq> 0 then 365
      else 366)"

definition DayFromYear :: "int \<Rightarrow> int" where
  "DayFromYear y = 365 * (y - 1970) + (y - 1969) div 4 - (y - 1901) div 100 + (y - 1601) div 400"

text \<open>
  \<^verbatim>\<open>YearFromTime(t)\<close> is the largest year \<open>y\<close> with \<open>DayFromYear y \<le> Day t\<close>. It is
  computed by a search upwards from a year that is not too large; the search ends
  because each year has at least 365 days, and \<open>YearFromTime_bounds\<close> below shows that
  the result is the year the specification asks for.
\<close>

function year_search :: "int \<Rightarrow> int \<Rightarrow> int" where
  "year_search y d = (if DayFromYear (y + 1) \<le> d then year_search (y + 1) d else y)"
  by pat_completeness auto

definition YearFromTime :: "int \<Rightarrow> int" where
  "YearFromTime t =
     (let d = Day t in year_search (1970 + (if 0 \<le> d then d div 366 else d div 365)) d)"

definition InLeapYear :: "int \<Rightarrow> int" where
  "InLeapYear t = (if DaysInYear (YearFromTime t) = 366 then 1 else 0)"

definition DayWithinYear :: "int \<Rightarrow> int" where
  "DayWithinYear t = Day t - DayFromYear (YearFromTime t)"

definition MonthFromTime :: "int \<Rightarrow> int" where
  "MonthFromTime t =
     (let d = DayWithinYear t; leap = InLeapYear t in
      if d < 31 then 0
      else if d < 59 + leap then 1
      else if d < 90 + leap then 2
      else if d < 120 + leap then 3
      else if d < 151 + leap then 4
      else if d < 181 + leap then 5
      else if d < 212 + leap then 6
      else if d < 243 + leap then 7
      else if d < 273 + leap then 8
      else if d < 304 + leap then 9
      else if d < 334 + leap then 10
      else 11)"

definition DateFromTime :: "int \<Rightarrow> int" where
  "DateFromTime t =
     (let d = DayWithinYear t; leap = InLeapYear t; m = MonthFromTime t in
      if m = 0 then d + 1
      else if m = 1 then d - 30
      else if m = 2 then d - 58 - leap
      else if m = 3 then d - 89 - leap
      else if m = 4 then d - 119 - leap
      else if m = 5 then d - 150 - leap
      else if m = 6 then d - 180 - leap
      else if m = 7 then d - 211 - leap
      else if m = 8 then d - 242 - leap
      else if m = 9 then d - 272 - leap
      else if m = 10 then d - 303 - leap
      else d - 333 - leap)"

definition HourFromTime :: "int \<Rightarrow> int" where
  "HourFromTime t = (t div msPerHour) mod 24"

definition MinFromTime :: "int \<Rightarrow> int" where
  "MinFromTime t = (t div msPerMinute) mod 60"

definition SecFromTime :: "int \<Rightarrow> int" where
  "SecFromTime t = (t div msPerSecond) mod 60"

definition msFromTime :: "int \<Rightarrow> int" where
  "msFromTime t = t mod msPerSecond"

definition MakeTime :: "int \<Rightarrow> int \<Rightarrow> int \<Rightarrow> int \<Rightarrow> int" where
  "MakeTime hour minute sec ms = hour * msPerHour + minute * msPerMinute + sec * msPerSecond + ms"

text \<open>
  \<^verbatim>\<open>MakeDay\<close> asks for the day number of the first day of month \<open>mn\<close> of year \<open>ym\<close>:
  the day the year starts on, plus the days of the months before (\<open>date_roundtrip\<close>
  below shows that \<open>YearFromTime\<close>, \<open>MonthFromTime\<close> and \<open>DateFromTime\<close> read that day
  back as \<open>ym\<close>, \<open>mn\<close> and 1).
\<close>

definition DaysBeforeMonth :: "int \<Rightarrow> int \<Rightarrow> int" where
  "DaysBeforeMonth mn y =
     [0, 31, 59, 90, 120, 151, 181, 212, 243, 273, 304, 334] ! nat mn
       + (if 2 \<le> mn \<and> DaysInYear y = 366 then 1 else 0)"

definition MakeDay :: "int \<Rightarrow> int \<Rightarrow> int \<Rightarrow> int" where
  "MakeDay year month date =
     (let ym = year + month div 12; mn = month mod 12
      in DayFromYear ym + DaysBeforeMonth mn ym + date - 1)"

text \<open>
  The days of month \<open>mn\<close> (0 is January) in year \<open>y\<close>: the calendar's table, by which
  the theorems below say which dates exist.
\<close>

definition DaysInMonth :: "int \<Rightarrow> int \<Rightarrow> int" where
  "DaysInMonth mn y =
     [31, if DaysInYear y = 366 then 29 else 28, 31, 30, 31, 30, 31, 31, 30, 31, 30, 31] ! nat mn"

definition MakeDate :: "int \<Rightarrow> int \<Rightarrow> int" where
  "MakeDate day time = day * msPerDay + time"

definition TimeClip :: "int \<Rightarrow> jsnum" where
  "TimeClip t = (if 8640000000000000 < \<bar>t\<bar> then NaN else Num t)"

text \<open>\<^verbatim>\<open>MakeFullYear\<close>: a year from 0 to 99 stands for 1900 + year.\<close>

definition FullYear :: "int \<Rightarrow> int" where
  "FullYear y = (if 0 \<le> y \<and> y \<le> 99 then 1900 + y else y)"

definition MakeFullYear :: "jsnum \<Rightarrow> jsnum" where
  "MakeFullYear year = (case year of Num y \<Rightarrow> Num (FullYear y) | _ \<Rightarrow> year)"

text \<open>
  \<^verbatim>\<open>Date.UTC(year, month, date)\<close> with an integer month and date: the time value, or
  \<open>NaN\<close> when the year is not finite or the date lies outside the range of time values.
\<close>

definition Date_UTC :: "jsnum \<Rightarrow> int \<Rightarrow> int \<Rightarrow> jsnum" where
  "Date_UTC year month date =
     (case MakeFullYear year of
        Num yr \<Rightarrow> TimeClip (MakeDate (MakeDay yr month date) (MakeTime 0 0 0 0))
      | _ \<Rightarrow> NaN)"

text \<open>\<^verbatim>\<open>new Date(v)\<close>, as the time value the Date object holds.\<close>

definition new_Date :: "jsnum \<Rightarrow> jsnum" where
  "new_Date v = (case v of Num t \<Rightarrow> TimeClip t | _ \<Rightarrow> NaN)"

text \<open>A number in at least \<open>w\<close> decimal digits, padded with zeros on the left.\<close>

definition pad :: "nat \<Rightarrow> nat \<Rightarrow> jsstring" where
  "pad w n = replicate (w - length (digits n)) (digit_char 0) @ decimal n"

text \<open>
  \<^verbatim>\<open>Date.prototype.toISOString\<close>: a \<^verbatim>\<open>RangeError\<close> for an invalid date; otherwise
  \<^verbatim>\<open>YYYY-MM-DDTHH:mm:ss.sssZ\<close>, the year in four digits from 0 to 9999 and as a sign
  and six digits outside.
\<close>

definition ISO_year :: "int \<Rightarrow> jsstring" where
  "ISO_year y =
     (if 0 \<le> y \<and> y \<le> 9999 then pad 4 (nat y)
      else (if y < 0 then js ''-'' else js ''+'') @ pad 6 (nat \<bar>y\<bar>))"

definition Date_toISOString :: "jsnum \<Rightarrow> js_error + jsstring" where
  "Date_toISOString tv =
     (case tv of
        Num t \<Rightarrow>
          Inr (ISO_year (YearFromTime t)
               @ js ''-'' @ pad 2 (nat (MonthFromTime t + 1))
               @ js ''-'' @ pad 2 (nat (DateFromTime t))
               @ js ''T'' @ pad 2 (nat (HourFromTime t))
               @ js '':'' @ pad 2 (nat (MinFromTime t))
               @ js '':'' @ pad 2 (nat (SecFromTime t))
               @ js ''.'' @ pad 3 (nat (msFromTime t))
               @ js ''Z'')
      | _ \<Rightarrow> Inl RangeError)"

section \<open>The module\<close>

subsection \<open>transformToRows\<close>

text \<open>
  The own enumerable string-keyed properties of a value, in enumeration order: those
  of an object, and the index properties \<^verbatim>\<open>"0"\<close>, \<^verbatim>\<open>"1"\<close>, ... of an array (the indices
  that are present) and of a string. The other values have none.
\<close>

definition own_props :: "jsval \<Rightarrow> (jsstring \<times> jsval) list" where
  "own_props v =
     (case v of
        JObj ps \<Rightarrow> ps
      | JArr xs \<Rightarrow> zip (map decimal [0..<length xs]) xs
      | JSparse es \<Rightarrow>
          List.map_filter (\<lambda>(i, e). map_option (\<lambda>x. (decimal i, x)) e) (zip [0..<length es] es)
      | JStr s \<Rightarrow> zip (map decimal [0..<length s]) (map (\<lambda>c. JStr [c]) s)
      | _ \<Rightarrow> [])"

text \<open>\<^verbatim>\<open>Object.keys\<close>: a \<^verbatim>\<open>TypeError\<close> on \<^verbatim>\<open>undefined\<close> and \<^verbatim>\<open>null\<close>.\<close>

definition Object_keys :: "jsval \<Rightarrow> js_error + jsstring list" where
  "Object_keys v =
     (if v = JUndefined \<or> v = JNull then Inl TypeError else Inr (map fst (own_props v)))"

text \<open>
  \<^verbatim>\<open>obj[key]\<close> on an object or array. The source reads only keys that
  \<^verbatim>\<open>Object.keys\<close> returned, and the key \<^verbatim>\<open>"undefined"\<close> when there is none;
  no property of that name is inherited, so the own properties decide.
\<close>

definition Get :: "jsval \<Rightarrow> jsstring \<Rightarrow> jsval" where
  "Get obj key = (case map_of (own_props obj) key of Some x \<Rightarrow> x | None \<Rightarrow> JUndefined)"

text \<open>
  \<^verbatim>\<open>keys[0]\<close> as a property key: \<^verbatim>\<open>undefined\<close>, read from an empty array, becomes
  the key \<^verbatim>\<open>"undefined"\<close>.
\<close>

definition first_key :: "jsstring list \<Rightarrow> jsstring" where
  "first_key keys = (case keys of [] \<Rightarrow> js ''undefined'' | k # _ \<Rightarrow> k)"

text \<open>
  \<^verbatim>\<open>v?.length\<close>: short-circuits on \<^verbatim>\<open>undefined\<close> and \<^verbatim>\<open>null\<close>; a string and an
  array have a length; a plain object has one only as an own property; booleans and
  numbers have none.
\<close>

definition opt_length :: "jsval \<Rightarrow> jsval" where
  "opt_length v =
     (case v of
        JStr s \<Rightarrow> JNum (Num (int (length s)))
      | JArr xs \<Rightarrow> JNum (Num (int (length xs)))
      | JSparse es \<Rightarrow> JNum (Num (int (length es)))
      | JObj ps \<Rightarrow> Get (JObj ps) (js ''length'')
      | _ \<Rightarrow> JUndefined)"

text \<open>
  \<^verbatim>\<open>v?.[i]\<close> for an index \<open>i\<close>; a read out of range, or of a hole, gives
  \<^verbatim>\<open>undefined\<close>.
\<close>

definition opt_index :: "jsval \<Rightarrow> nat \<Rightarrow> jsval" where
  "opt_index v i =
     (case v of
        JStr s \<Rightarrow> (if i < length s then JStr [s ! i] else JUndefined)
      | JArr xs \<Rightarrow> (if i < length xs then xs ! i else JUndefined)
      | JSparse es \<Rightarrow>
          (if i < length es then (case es ! i of Some x \<Rightarrow> x | None \<Rightarrow> JUndefined)
           else JUndefined)
      | JObj ps \<Rightarrow> Get (JObj ps) (decimal i)
      | _ \<Rightarrow> JUndefined)"

text \<open>
  \<^verbatim>\<open>Array.from({ length: n }, (_, i) => f(i))\<close>: the length of the array-like
  argument is \<open>ToLength n\<close>, and the array constructor refuses a length above
  \<open>2^32 - 1\<close> with a \<^verbatim>\<open>RangeError\<close>.
\<close>

definition Array_from :: "jsval \<Rightarrow> (nat \<Rightarrow> jsval) \<Rightarrow> jsval completion" where
  "Array_from n f =
     (case ToLength n of
        Inl e \<Rightarrow> Throws e
      | Inr len \<Rightarrow>
          (if 2 ^ 32 - 1 < len then Throws RangeError
           else Returns (JArr (map f [0..<len]))))"

text \<open>
  \<^verbatim>\<open>row[key] = v\<close> on a row that started as \<^verbatim>\<open>{}\<close>, as the list of the row's own
  properties. The key \<^verbatim>\<open>__proto__\<close> is the accessor inherited from
  \<^verbatim>\<open>Object.prototype\<close>: assigning to it creates no own property. Any other key is
  updated in place or appended; the keys arrive in the enumeration order of the input,
  so appending keeps that order.
\<close>

definition row_set :: "(jsstring \<times> jsval) list \<Rightarrow> jsstring \<Rightarrow> jsval \<Rightarrow> (jsstring \<times> jsval) list" where
  "row_set row key v =
     (if key = js ''__proto__'' then row
      else if key \<in> fst ` set row then map (\<lambda>(k, x). if k = key then (k, v) else (k, x)) row
      else row @ [(key, v)])"

text \<open>The body of the arrow function: one row, built key by key.\<close>

definition build_row :: "jsval \<Rightarrow> jsstring list \<Rightarrow> nat \<Rightarrow> jsval" where
  "build_row retoolQueryData keys i =
     JObj (foldl (\<lambda>row key. row_set row key (nullish (opt_index (Get retoolQueryData key) i) JNull))
            [] keys)"

definition transformToRows :: "jsval \<Rightarrow> jsval completion" where
  "transformToRows retoolQueryData =
     (if \<not> ToBoolean retoolQueryData \<or> typeof retoolQueryData \<noteq> js ''object''
      then Returns (JArr [])
      else
        (case Object_keys retoolQueryData of
           Inl e \<Rightarrow> Throws e
         | Inr keys \<Rightarrow>
             let rowCount = js_or (opt_length (Get retoolQueryData (first_key keys))) (JNum (Num 0))
             in Array_from rowCount (build_row retoolQueryData keys)))"

subsection \<open>academicYear\<close>

text \<open>
  The result is the pair of what \<^verbatim>\<open>console.error\<close> was called with (one list of
  arguments per call) and how the call completed: \<open>Returns JNull\<close>, \<open>Returns\<close> the object
  literal, or \<open>Throws\<close> what \<^verbatim>\<open>parseInt\<close> or \<^verbatim>\<open>toISOString\<close> threw.
\<close>

definition academicYear :: "jsval \<Rightarrow> jsval list list \<times> jsval completion" where
  "academicYear input =
     (case parseInt input of
        Inl e \<Rightarrow> ([], Throws e)
      | Inr year \<Rightarrow>
          if year = NaN then
            ([[JStr (js ''Invalid academic year input:''), input]], Returns JNull)
          else
            let startDate = new_Date (Date_UTC year 8 1);
                endDate = new_Date (Date_UTC (js_add year 1) 7 31)
            in case Date_toISOString startDate of
                 Inl e \<Rightarrow> ([], Throws e)
               | Inr startISO \<Rightarrow>
                   (case Date_toISOString endDate of
                      Inl e \<Rightarrow> ([], Throws e)
                    | Inr endISO \<Rightarrow>
                        let start = split_first (js ''T'') startISO;
                            end' = split_first (js ''T'') endISO;
                            fullStart = Number_toString year;
                            fullEnd = Number_toString (js_add year 1);
                            shortStart = slice_last 2 fullStart;
                            shortEnd = slice_last 2 fullEnd
                        in ([], Returns (JObj
                             [(js ''start'', JStr start),
                              (js ''end'', JStr end'),
                              (js ''rangeFull'', JStr (fullStart @ js ''-'' @ fullEnd)),
                              (js ''rangeShort'', JStr (shortStart @ js ''-'' @ shortEnd)),
                              (js ''rangeCompact'', JStr (shortStart @ shortEnd)),
                              (js ''rangeMixed'', JStr (fullStart @ js ''-'' @ shortEnd)),
                              (js ''label'', JStr (fullStart @ [0x2013] @ fullEnd))]))))"

subsection \<open>currentAcademicYear\<close>

text \<open>
  \<open>now\<close> is the time value of \<^verbatim>\<open>new Date()\<close>, the reading of the system clock;
  \<^verbatim>\<open>getUTCFullYear\<close> and \<^verbatim>\<open>getUTCMonth\<close> are \<open>YearFromTime\<close> and \<open>MonthFromTime\<close> of it.
\<close>

definition currentAcademicYear :: "int \<Rightarrow> int" where
  "currentAcademicYear now =
     (let year = YearFromTime now;
          month = MonthFromTime now;
          academicYear = (if month < 8 then year - 1 else year)
      in academicYear)"

section \<open>The search for the year ends\<close>

text \<open>
  A year has 365 or 366 days, so the first day of the next year moves past any given
  day: \<open>year_search\<close> terminates.
\<close>

lemma div_step:
  fixes a k :: int
  assumes "0 < k"
  shows "(a + 1) div k = (if (a + 1) mod k = 0 then a div k + 1 else a div k)"
proof -
  have e: "k * (a div k) + a mod k = a" by simp
  have d: "k * (a div k + 1) = k * (a div k) + k" by (simp add: algebra_simps)
  have r: "0 \<le> a mod k" "a mod k < k" using assms by simp_all
  show ?thesis
  proof (cases "a mod k = k - 1")
    case True
    have a: "a + 1 = k * (a div k + 1) + 0" using e d True by linarith
    have "(a + 1) div k = a div k + 1"
      by (rule int_div_pos_eq [OF a]) (use assms in auto)
    moreover have "(a + 1) mod k = 0"
      by (rule int_mod_pos_eq [OF a]) (use assms in auto)
    ultimately show ?thesis by simp
  next
    case False
    have a: "a + 1 = k * (a div k) + (a mod k + 1)" using e by linarith
    have "(a + 1) div k = a div k"
      by (rule int_div_pos_eq [OF a]) (use r False in auto)
    moreover have "(a + 1) mod k = a mod k + 1"
      by (rule int_mod_pos_eq [OF a]) (use r False in auto)
    ultimately show ?thesis using r by simp
  qed
qed

lemma leap_step_4:
  "(y - 1968) div 4 = (if y mod 4 = 0 then (y - 1969) div 4 + 1 else (y - 1969) div 4)"
  for y :: int
proof -
  have "(y - 1968) mod 4 = (y + (- 492) * 4) mod 4" by simp
  also have "\<dots> = y mod 4" by (rule mod_mult_self1)
  finally show ?thesis using div_step [of 4 "y - 1969"] by simp
qed

lemma leap_step_100:
  "(y - 1900) div 100 = (if y mod 100 = 0 then (y - 1901) div 100 + 1 else (y - 1901) div 100)"
  for y :: int
proof -
  have "(y - 1900) mod 100 = (y + (- 19) * 100) mod 100" by simp
  also have "\<dots> = y mod 100" by (rule mod_mult_self1)
  finally show ?thesis using div_step [of 100 "y - 1901"] by simp
qed

lemma leap_step_400:
  "(y - 1600) div 400 = (if y mod 400 = 0 then (y - 1601) div 400 + 1 else (y - 1601) div 400)"
  for y :: int
proof -
  have "(y - 1600) mod 400 = (y + (- 4) * 400) mod 400" by simp
  also have "\<dots> = y mod 400" by (rule mod_mult_self1)
  finally show ?thesis using div_step [of 400 "y - 1601"] by simp
qed

lemma mod_100_4: "y mod 100 = 0 \<Longrightarrow> y mod 4 = 0" for y :: int
proof -
  assume "y mod 100 = 0"
  then have "100 dvd y" by (simp add: mod_eq_0_iff_dvd)
  moreover have "(4::int) dvd 100" by simp
  ultimately have "4 dvd y" by (rule dvd_trans [rotated])
  then show ?thesis by (simp add: mod_eq_0_iff_dvd)
qed

lemma mod_400_100: "y mod 400 = 0 \<Longrightarrow> y mod 100 = 0" for y :: int
proof -
  assume "y mod 400 = 0"
  then have "400 dvd y" by (simp add: mod_eq_0_iff_dvd)
  moreover have "(100::int) dvd 400" by simp
  ultimately have "100 dvd y" by (rule dvd_trans [rotated])
  then show ?thesis by (simp add: mod_eq_0_iff_dvd)
qed

lemma DayFromYear_Suc: "DayFromYear (y + 1) = DayFromYear y + DaysInYear y"
proof -
  have "DayFromYear (y + 1) =
      365 * (y - 1969) + (y - 1968) div 4 - (y - 1900) div 100 + (y - 1600) div 400"
    by (simp add: DayFromYear_def)
  then show ?thesis
    using mod_100_4 [of y] mod_400_100 [of y]
    by (auto simp: DayFromYear_def DaysInYear_def leap_step_4 leap_step_100 leap_step_400)
qed

lemma DaysInYear_ge_365: "365 \<le> DaysInYear y"
  by (simp add: DaysInYear_def)

termination year_search
proof (relation "measure (\<lambda>(y, d). nat (d + 1 - DayFromYear (y + 1)))")
  show "wf (measure (\<lambda>(y, d). nat (d + 1 - DayFromYear (y + 1))))" by simp
next
  fix y d :: int
  assume "DayFromYear (y + 1) \<le> d"
  moreover have "DayFromYear (y + 1 + 1) = DayFromYear (y + 1) + DaysInYear (y + 1)"
    by (rule DayFromYear_Suc)
  moreover have "365 \<le> DaysInYear (y + 1)" by (rule DaysInYear_ge_365)
  ultimately show "((y + 1, d), (y, d)) \<in> measure (\<lambda>(y, d). nat (d + 1 - DayFromYear (y + 1)))"
    by simp
qed

declare year_search.simps [simp del]

section \<open>Properties of transformToRows\<close>

subsection \<open>The rows of an object\<close>

text \<open>
  Assigning the keys of an object, which are distinct, to an empty row appends one
  property per key, except for the key \<^verbatim>\<open>__proto__\<close>.
\<close>

lemma foldl_row_set:
  "distinct keys \<Longrightarrow> set keys \<inter> fst ` set row = {} \<Longrightarrow>
   foldl (\<lambda>row key. row_set row key (g key)) row keys =
     row @ map (\<lambda>k. (k, g k)) (filter (\<lambda>k. k \<noteq> js ''__proto__'') keys)"
proof (induction keys arbitrary: row)
  case Nil
  then show ?case by simp
next
  case (Cons k ks)
  show ?case
  proof (cases "k = js ''__proto__''")
    case True
    have "row_set row k (g k) = row" using True by (simp add: row_set_def)
    moreover have "foldl (\<lambda>row key. row_set row key (g key)) row ks =
        row @ map (\<lambda>k. (k, g k)) (filter (\<lambda>k. k \<noteq> js ''__proto__'') ks)"
      using Cons.prems by (intro Cons.IH) auto
    ultimately show ?thesis using True by simp
  next
    case False
    have notin: "k \<notin> fst ` set row" using Cons.prems by auto
    have step: "row_set row k (g k) = row @ [(k, g k)]"
      using False notin by (simp add: row_set_def)
    have "foldl (\<lambda>row key. row_set row key (g key)) (row @ [(k, g k)]) ks =
        (row @ [(k, g k)]) @ map (\<lambda>k. (k, g k)) (filter (\<lambda>k. k \<noteq> js ''__proto__'') ks)"
      using Cons.prems by (intro Cons.IH) auto
    then show ?thesis using False step by simp
  qed
qed

lemma build_row_distinct:
  "distinct keys \<Longrightarrow>
   build_row d keys i =
     JObj (map (\<lambda>k. (k, nullish (opt_index (Get d k) i) JNull))
            (filter (\<lambda>k. k \<noteq> js ''__proto__'') keys))"
  unfolding build_row_def using foldl_row_set [of keys "[]"] by simp

lemma Get_JObj_distinct:
  "distinct (map fst ps) \<Longrightarrow> (k, v) \<in> set ps \<Longrightarrow> Get (JObj ps) k = v"
  by (simp add: Get_def own_props_def)

lemma map_keys_Get:
  "distinct (map fst ps) \<Longrightarrow>
   map (\<lambda>k. (k, f (Get (JObj ps) k))) (filter P (map fst ps)) =
   map (\<lambda>(k, v). (k, f v)) (filter (\<lambda>(k, v). P k) ps)"
proof -
  assume d: "distinct (map fst ps)"
  have "map (\<lambda>k. (k, f (Get (JObj ps) k))) (filter P (map fst ps)) =
        map (\<lambda>kv. (fst kv, f (Get (JObj ps) (fst kv)))) (filter (\<lambda>kv. P (fst kv)) ps)"
    by (simp add: filter_map comp_def)
  also have "\<dots> = map (\<lambda>kv. (fst kv, f (snd kv))) (filter (\<lambda>kv. P (fst kv)) ps)"
    by (rule map_cong) (auto simp: Get_JObj_distinct [OF d])
  finally show ?thesis by (simp add: case_prod_unfold)
qed

lemma Object_keys_JObj: "Object_keys (JObj ps) = Inr (map fst ps)"
  by (simp add: Object_keys_def own_props_def)

lemma build_row_JObj:
  "distinct (map fst ps) \<Longrightarrow>
   build_row (JObj ps) (map fst ps) i =
     JObj (map (\<lambda>(k, v). (k, nullish (opt_index v i) JNull))
            (filter (\<lambda>(k, v). k \<noteq> js ''__proto__'') ps))"
  by (simp add: build_row_distinct
      map_keys_Get [where f = "\<lambda>v. nullish (opt_index v i) JNull"])

lemma ToLength_JNum:
  "ToLength (JNum x) =
     Inr (case x of Num n \<Rightarrow> (if n \<le> 0 then 0 else min (nat n) (2 ^ 53 - 1))
          | PosInfinity \<Rightarrow> 2 ^ 53 - 1 | _ \<Rightarrow> 0)"
  by (cases x) (simp_all add: ToLength_def ToIntegerOrInfinity_def ToNumber_truncated_def)

lemma Get_first_key_Cons:
  "Get (JObj ((k, v) # ps)) (first_key (map fst ((k, v) # ps))) = v"
  by (simp add: Get_def own_props_def first_key_def)

lemma transformToRows_JObj_Cons:
  "transformToRows (JObj ((k, v) # ps)) =
     Array_from (js_or (opt_length v) (JNum (Num 0)))
       (build_row (JObj ((k, v) # ps)) (map fst ((k, v) # ps)))"
  using Get_first_key_Cons [of k v ps]
  by (simp add: transformToRows_def ToBoolean_def typeof_def Object_keys_JObj del: list.map)

text \<open>
  When the first key binds an array, there is one row per index of that array, and
  row \<open>i\<close> reads index \<open>i\<close> of every field.
\<close>

lemma transformToRows_JObj_JArr:
  assumes "distinct (map fst ((k, JArr xs) # ps))" and "length xs < 2 ^ 32"
  shows "transformToRows (JObj ((k, JArr xs) # ps)) =
     Returns (JArr (map (\<lambda>i. JObj (map (\<lambda>(k, v). (k, nullish (opt_index v i) JNull))
            (filter (\<lambda>(k, v). k \<noteq> js ''__proto__'') ((k, JArr xs) # ps)))) [0..<length xs]))"
proof -
  let ?d = "JObj ((k, JArr xs) # ps)"
  let ?keys = "map fst ((k, JArr xs) # ps)"
  have rc: "ToLength (js_or (opt_length (JArr xs)) (JNum (Num 0))) = Inr (length xs)"
    using assms(2) by (simp add: js_or_def opt_length_def ToBoolean_def ToLength_JNum)
  have "transformToRows ?d = Array_from (js_or (opt_length (JArr xs)) (JNum (Num 0))) (build_row ?d ?keys)"
    by (rule transformToRows_JObj_Cons)
  also have "\<dots> = Returns (JArr (map (build_row ?d ?keys) [0..<length xs]))"
    using assms(2) by (simp add: Array_from_def rc del: list.map)
  finally show ?thesis
    using build_row_JObj [OF assms(1)] by (simp del: list.map)
qed

lemmas rows_eval = transformToRows_def ToBoolean_def typeof_def Object_keys_def own_props_def
  Get_def first_key_def opt_length_def opt_index_def Array_from_def build_row_def row_set_def
  js_or_def nullish_def ToLength_def ToIntegerOrInfinity_def ToNumber_truncated_def


lemma transformToRows_no_keys:
  "transformToRows (JObj []) = Returns (JArr [])"
  by (simp add: rows_eval js_def)

lemma transformToRows_first_no_length:
  assumes "opt_length v = JUndefined"
  shows "transformToRows (JObj ((k, v) # ps)) = Returns (JArr [])"
proof -
  have "js_or (opt_length v) (JNum (Num 0)) = JNum (Num 0)"
    using assms by (simp add: js_or_def ToBoolean_def)
  then show ?thesis
    by (simp add: transformToRows_JObj_Cons Array_from_def ToLength_JNum del: list.map)
qed

subsection \<open>When transformToRows raises\<close>






subsection \<open>Rounding\<close>

text \<open>
  On an integer, the double that \<open>truncated_double\<close> truncates is the one that
  \<open>round_to_double\<close> gives.
\<close>

lemma floor_log2_integer:
  assumes "0 < p"
  shows "floor_log2 p 1 = bitlen (int p) - 1"
proof -
  have b1: "bitlen 1 = 1" by (simp add: bitlen_def compute_floorlog)
  have pos: "1 \<le> bitlen (int p)" using assms by (simp add: bitlen_ge_iff_power)
  have "2 ^ nat (bitlen (int p) - 1) \<le> int p" using bitlen_bounds [of "int p"] assms by simp
  then have "2 ^ nat (bitlen (int p) - 1) \<le> p" by simp
  then show ?thesis using pos by (simp add: floor_log2_def b1 Let_def)
qed

lemma truncated_double_below_2_53:
  assumes pos: "0 < p" and True: "p < 2 ^ 53"
  shows "truncated_double p 1 = round_to_double (int p)"
proof -
  have l: "floor_log2 p 1 = bitlen (int p) - 1" using pos by (rule floor_log2_integer)
  have b1: "1 \<le> bitlen (int p)" using pos by (simp add: bitlen_ge_iff_power)
    from True have "int p < 2 ^ nat 53" by simp
    then have "bitlen (int p) \<le> 53" by (simp add: bitlen_le_iff_power)
    then have e: "max (floor_log2 p 1 - 52) (- 1074) = bitlen (int p) - 53" "bitlen (int p) - 53 \<le> 0"
      using b1 l by simp_all
    have r: "round_to_double (int p) = Num (int p)"
      using True by (simp add: round_to_double_def)
    have "(2::nat) ^ 53 \<le> 2 ^ 1024" by (rule power_increasing) simp_all
    then have n: "\<not> (2::nat) ^ 1024 \<le> p" using True by linarith
    have td: "truncated_double p 1 =
       (let e = bitlen (int p) - 53;
            N = (if e < 0 then p * 2 ^ nat (- e) else p);
            D = (if e < 0 then 1 else 1 * 2 ^ nat e);
            s = N div D;
            r = N mod D;
            s' = (if D < 2 * r \<or> (2 * r = D \<and> odd s) then s + 1 else s)
        in if e < 0 then Num (int (s' div 2 ^ nat (- e)))
           else if 2 ^ 1024 \<le> s' * 2 ^ nat e then PosInfinity
           else Num (int (s' * 2 ^ nat e)))"
      unfolding truncated_double_def e(1) using pos by simp
    show ?thesis
    proof (cases "bitlen (int p) - 53 < 0")
      case True
      then show ?thesis unfolding td r Let_def by simp
    next
      case False
      then have z: "bitlen (int p) - 53 = 0" using e by simp
      show ?thesis unfolding td r Let_def z using n by simp
    qed
qed

lemma truncated_double_from_2_53:
  assumes pos: "0 < p" and False: "\<not> p < 2 ^ 53"
  shows "truncated_double p 1 = round_to_double (int p)"
proof -
  have l: "floor_log2 p 1 = bitlen (int p) - 1" using pos by (rule floor_log2_integer)
  from False have ge: "2 ^ 53 \<le> int p" by simp
  then have "54 \<le> bitlen (int p)" by (simp add: bitlen_ge_iff_power)
  then have e: "max (floor_log2 p 1 - 52) (- 1074) = bitlen (int p) - 53" "0 < bitlen (int p) - 53"
    using l by simp_all
  define k where "k = nat (bitlen (int p) - 53)"
  have k: "0 < k" using e by (simp add: k_def)
  then obtain j where j: "k = Suc j" by (cases k) auto
  have h: "(2::nat) ^ k = 2 * 2 ^ (k - 1)" by (simp add: j)
  have d: "int p div 2 ^ k = int (p div 2 ^ k)" by (simp add: zdiv_int)
  have m: "int p mod 2 ^ k = int (p mod 2 ^ k)" by (simp add: zmod_int)
  have hh: "(2::int) ^ (k - 1) = int (2 ^ (k - 1))" by simp
  have c1: "((2::int) ^ (k - 1) < int p mod 2 ^ k) = (2 ^ k < 2 * (p mod 2 ^ k))"
    unfolding m hh h of_nat_less_iff by simp
  have c2: "(int p mod 2 ^ k = (2::int) ^ (k - 1)) = (2 * (p mod 2 ^ k) = 2 ^ k)"
    unfolding m hh h of_nat_eq_iff by simp
  have c3: "odd (int p div 2 ^ k) = odd (p div 2 ^ k)"
    unfolding d by simp
  have lhs: "truncated_double p 1 =
     (let s = p div 2 ^ k;
          s' = (if 2 ^ k < 2 * (p mod 2 ^ k) \<or> (2 * (p mod 2 ^ k) = 2 ^ k \<and> odd s) then s + 1 else s)
      in if 2 ^ 1024 \<le> s' * 2 ^ k then PosInfinity else Num (int (s' * 2 ^ k)))"
    apply (simp only: truncated_double_def e(1))
    using pos e(2) apply (simp add: Let_def k_def)
    done
  have a: "\<bar>int p\<bar> = int p" "\<not> int p < 2 ^ 53" "\<not> int p < 0" using ge by simp_all
  have rhs: "round_to_double (int p) =
     (let q = int p div 2 ^ k;
          q' = (if 2 ^ (k - 1) < int p mod 2 ^ k \<or> (int p mod 2 ^ k = 2 ^ (k - 1) \<and> odd q) then q + 1 else q)
      in if 2 ^ 1024 \<le> q' * 2 ^ k then PosInfinity else Num (q' * 2 ^ k))"
    using a by (simp add: round_to_double_def Let_def k_def)
  define s' where "s' = (if 2 ^ k < 2 * (p mod 2 ^ k) \<or> (2 * (p mod 2 ^ k) = 2 ^ k \<and> odd (p div 2 ^ k))
      then p div 2 ^ k + 1 else p div 2 ^ k)"
  have q': "(if 2 ^ (k - 1) < int p mod 2 ^ k \<or> (int p mod 2 ^ k = 2 ^ (k - 1) \<and> odd (int p div 2 ^ k))
      then int p div 2 ^ k + 1 else int p div 2 ^ k) = int s'"
    unfolding c1 c2 c3 s'_def d by simp
  have c4: "((2::int) ^ 1024 \<le> int s' * 2 ^ k) = (2 ^ 1024 \<le> s' * 2 ^ k)"
  proof -
    have "((2::int) ^ 1024 \<le> int s' * 2 ^ k) = (int (2 ^ 1024) \<le> int (s' * 2 ^ k))" by simp
    also have "\<dots> = (2 ^ 1024 \<le> s' * 2 ^ k)" by (rule of_nat_le_iff)
    finally show ?thesis .
  qed
  have "round_to_double (int p) =
     (if 2 ^ 1024 \<le> s' * 2 ^ k then PosInfinity else Num (int (s' * 2 ^ k)))"
    unfolding rhs Let_def q' c4 by simp
  also have "\<dots> = truncated_double p 1"
    unfolding lhs Let_def s'_def by simp
  finally show ?thesis by simp
qed

lemma truncated_double_integer:
  "truncated_double p 1 = round_to_double (int p)"
proof (cases "p = 0")
  case True
  then show ?thesis by (simp add: truncated_double_def round_to_double_def)
next
  case False
  then show ?thesis
    using truncated_double_below_2_53 [of p] truncated_double_from_2_53 [of p] by (cases "p < 2 ^ 53") simp_all
qed

subsection \<open>Lengths that are not numbers\<close>

text \<open>
  A length that is a string is read as a number: \<^verbatim>\<open>{a: {length: "2"}}\<close> gives two rows,
  and so does the length \<^verbatim>\<open>" 0x2 "\<close>, or \<^verbatim>\<open>"2.5"\<close>, or the array \<^verbatim>\<open>[2]\<close>, which prints
  as \<^verbatim>\<open>"2"\<close>; the length \<^verbatim>\<open>"1e10"\<close> is too large for an array, and the length
  \<^verbatim>\<open>"two"\<close> counts as 0.
\<close>

lemmas tonum_eval = StringToNumber_truncated_def trim_def is_white_space_def NonDecimalIntegerLiteral_def
  radix_digit_value_def radix_of_prefix_def ExponentPart_def StrUnsignedDecimalLiteral_def is_digit_def
  digits_value_def digit_value_def truncated_double_def floor_log2_def bitlen_def compute_floorlog
  js_neg_def js_def Let_def

lemma StringToNumber_truncated_examples:
  "StringToNumber_truncated (js ''2'') = Num 2"
  "StringToNumber_truncated (js '' 0x2 '') = Num 2"
  "StringToNumber_truncated (js ''2.5'') = Num 2"
  "StringToNumber_truncated (js ''1e10'') = Num 10000000000"
  "StringToNumber_truncated (js ''two'') = NaN"
  "StringToNumber_truncated (js ''-Infinity'') = NegInfinity"
  "StringToNumber_truncated [] = Num 0"
  by (simp_all add: tonum_eval)

lemma transformToRows_string_length:
  "transformToRows (JObj [(js ''a'', JObj [(js ''length'', JStr (js ''2''))])]) =
     Returns (JArr [JObj [(js ''a'', JNull)], JObj [(js ''a'', JNull)]])"
  "transformToRows (JObj [(js ''a'', JObj [(js ''length'', JStr (js '' 0x2 ''))])]) =
     Returns (JArr [JObj [(js ''a'', JNull)], JObj [(js ''a'', JNull)]])"
  "transformToRows (JObj [(js ''a'', JObj [(js ''length'', JStr (js ''2.5''))])]) =
     Returns (JArr [JObj [(js ''a'', JNull)], JObj [(js ''a'', JNull)]])"
  "transformToRows (JObj [(js ''a'', JObj [(js ''length'', JArr [JNum (Num 2)])])]) =
     Returns (JArr [JObj [(js ''a'', JNull)], JObj [(js ''a'', JNull)]])"
  "transformToRows (JObj [(js ''a'', JObj [(js ''length'', JStr (js ''1e10''))])]) = Throws RangeError"
  "transformToRows (JObj [(js ''a'', JObj [(js ''length'', JStr (js ''two''))])]) = Returns (JArr [])"
  by (simp_all add: rows_eval tonum_eval upt_conv_Cons decimal_def digits.simps digit_char_def
      Number_toString_def nat_toString_def)

text \<open>
  An array with a hole has no key for the hole: the first key of \<^verbatim>\<open>[ , [1, 2]]\<close> is
  \<^verbatim>\<open>"1"\<close>, and there are two rows.
\<close>

lemma transformToRows_sparse_array:
  "transformToRows (JSparse [None, Some (JArr [JNum (Num 1), JNum (Num 2)])]) =
     Returns (JArr [JObj [(js ''1'', JNum (Num 1))], JObj [(js ''1'', JNum (Num 2))]])"
  by (simp add: rows_eval js_def upt_conv_Cons List.map_filter_def decimal_def digits.simps digit_char_def)

subsection \<open>Claims about transformToRows\<close>

text \<open>
  C1, as amended. For an object of \<open>N \<ge> 1\<close> fields, none of them named
  \<^verbatim>\<open>__proto__\<close>, whose values are arrays of one length \<open>L\<close>, \<open>transformToRows\<close> returns
  exactly \<open>L\<close> rows; each row has all \<open>N\<close> keys, in the order of the input, and row \<open>i\<close>
  maps each key to the element at index \<open>i\<close> of that key's array, with \<^verbatim>\<open>null\<close> in
  place of an element that is \<^verbatim>\<open>undefined\<close>. (The keys of an object are distinct and
  an array is shorter than \<open>2^32\<close>.)
\<close>

theorem transformToRows_equal_length_columns:
  assumes "cols \<noteq> []"
    and "distinct (map fst cols)"
    and "js ''__proto__'' \<notin> set (map fst cols)"
    and "\<forall>(k, xs) \<in> set cols. length xs = L"
    and "L < 2 ^ 32"
  shows "transformToRows (JObj (map (\<lambda>(k, xs). (k, JArr xs)) cols)) =
     Returns (JArr (map (\<lambda>i. JObj (map (\<lambda>(k, xs). (k, nullish (xs ! i) JNull)) cols))
                      [0..<L]))"
proof -
  obtain k xs rest where cols: "cols = (k, xs) # rest"
    using assms(1) by (cases cols) auto
  let ?ps = "map (\<lambda>(k, xs). (k, JArr xs)) rest"
  have fst_eq: "map fst (map (\<lambda>(k, xs). (k, JArr xs)) cols) = map fst cols"
    by (simp add: comp_def case_prod_unfold)
  have fst_rest: "map fst ?ps = map fst rest"
    by (simp add: comp_def case_prod_unfold)
  have d: "distinct (map fst ((k, JArr xs) # ?ps))"
    using assms(2) by (simp add: cols fst_rest del: map_map)
  have len: "length xs = L" using assms(4) by (simp add: cols)
  have nofilter: "filter (\<lambda>(k, v). k \<noteq> js ''__proto__'') ((k, JArr xs) # ?ps) = (k, JArr xs) # ?ps"
    using assms(3) by (force simp: cols filter_id_conv)
  have row: "map (\<lambda>(k, v). (k, nullish (opt_index v i) JNull)) ((k, JArr xs) # ?ps) =
             map (\<lambda>(k, xs). (k, nullish (xs ! i) JNull)) cols" if "i < L" for i
    using assms(4) that by (auto simp: cols opt_index_def)
  have "transformToRows (JObj ((k, JArr xs) # ?ps)) =
     Returns (JArr (map (\<lambda>i. JObj (map (\<lambda>(k, v). (k, nullish (opt_index v i) JNull))
            ((k, JArr xs) # ?ps))) [0..<L]))"
    using transformToRows_JObj_JArr [OF d] assms(5) len nofilter by simp
  also have "map (\<lambda>i. JObj (map (\<lambda>(k, v). (k, nullish (opt_index v i) JNull)) ((k, JArr xs) # ?ps))) [0..<L]
      = map (\<lambda>i. JObj (map (\<lambda>(k, xs). (k, nullish (xs ! i) JNull)) cols)) [0..<L]"
    by (rule map_cong) (auto simp: row simp del: list.map)
  finally show ?thesis by (simp add: cols)
qed

text \<open>
  The theorem at \<^verbatim>\<open>{a: [1, 2], b: ["x", undefined]}\<close>.
\<close>

theorem transformToRows_equal_length_columns_witness:
  "transformToRows (JObj [(js ''a'', JArr [JNum (Num 1), JNum (Num 2)]),
                          (js ''b'', JArr [JStr (js ''x''), JUndefined])]) =
     Returns (JArr [JObj [(js ''a'', JNum (Num 1)), (js ''b'', JStr (js ''x''))],
                          JObj [(js ''a'', JNum (Num 2)), (js ''b'', JNull)]])"
  using transformToRows_equal_length_columns
    [of "[(js ''a'', [JNum (Num 1), JNum (Num 2)]), (js ''b'', [JStr (js ''x''), JUndefined])]" 2]
  by (simp add: js_def nullish_def upt_conv_Cons)

text \<open>
  C1 as stated fails: the row of \<^verbatim>\<open>{a: [undefined]}\<close> maps \<^verbatim>\<open>a\<close> to \<^verbatim>\<open>null\<close>, not to
  the element at index 0, and the row of an object with an own key \<^verbatim>\<open>__proto__\<close> (as
  \<^verbatim>\<open>JSON.parse('{"__proto__": [1]}')\<close> makes one) does not have that key.
\<close>

theorem transformToRows_equal_length_columns_counterexample:
  "transformToRows (JObj [(js ''a'', JArr [JUndefined])]) =
     Returns (JArr [JObj [(js ''a'', JNull)]])
   \<and> transformToRows (JObj [(js ''__proto__'', JArr [JNum (Num 1)])]) =
     Returns (JArr [JObj []])"
  by (simp add: rows_eval js_def upt_conv_Cons)

subsection \<open>Padding\<close>

text \<open>
  With no keys the row count is 0. When the first key in enumeration order binds an
  array, the call returns as many rows as that array has elements, and for every other
  key, except \<^verbatim>\<open>__proto__\<close>, that binds a shorter array, the rows at the positions out
  of its range hold \<^verbatim>\<open>null\<close> under that key. In particular
  \<^verbatim>\<open>transformToRows({a:[1,2,3], b:[10]})\<close> returns the three rows
  \<^verbatim>\<open>{a:1, b:10}\<close>, \<^verbatim>\<open>{a:2, b:null}\<close>, \<^verbatim>\<open>{a:3, b:null}\<close>.
\<close>

lemma transformToRows_pads_short_columns:
  "transformToRows (JObj []) = Returns (JArr [])
   \<and> (\<forall>k xs ps. distinct (map fst ((k, JArr xs) # ps)) \<and> length xs < 2 ^ 32 \<longrightarrow>
        (\<exists>rows. transformToRows (JObj ((k, JArr xs) # ps)) = Returns (JArr rows)
           \<and> length rows = length xs
           \<and> (\<forall>k' ys i. (k', JArr ys) \<in> set ps \<and> k' \<noteq> js ''__proto__''
                  \<and> length ys \<le> i \<and> i < length xs \<longrightarrow> Get (rows ! i) k' = JNull)))
   \<and> transformToRows (JObj [(js ''a'', JArr [JNum (Num 1), JNum (Num 2), JNum (Num 3)]),
                            (js ''b'', JArr [JNum (Num 10)])]) =
       Returns (JArr [JObj [(js ''a'', JNum (Num 1)), (js ''b'', JNum (Num 10))],
                            JObj [(js ''a'', JNum (Num 2)), (js ''b'', JNull)],
                            JObj [(js ''a'', JNum (Num 3)), (js ''b'', JNull)]])"
proof (intro conjI allI impI)
  show "transformToRows (JObj []) = Returns (JArr [])"
    by (rule transformToRows_no_keys)
next
  fix k :: jsstring and xs :: "jsval list" and ps :: "(jsstring \<times> jsval) list"
  assume a: "distinct (map fst ((k, JArr xs) # ps)) \<and> length xs < 2 ^ 32"
  let ?all = "(k, JArr xs) # ps"
  let ?row = "\<lambda>i. JObj (map (\<lambda>(k, v). (k, nullish (opt_index v i) JNull))
            (filter (\<lambda>(k, v). k \<noteq> js ''__proto__'') ?all))"
  have res: "transformToRows (JObj ?all) = Returns (JArr (map ?row [0..<length xs]))"
    using transformToRows_JObj_JArr a by blast
  have pad: "Get (map ?row [0..<length xs] ! i) k' = JNull"
    if h: "(k', JArr ys) \<in> set ps \<and> k' \<noteq> js ''__proto__'' \<and> length ys \<le> i \<and> i < length xs"
    for k' ys i
  proof -
    let ?kept = "filter (\<lambda>(k, v). k \<noteq> js ''__proto__'') ?all"
    have mem: "(k', JArr ys) \<in> set ?kept" using h by auto
    have "distinct (map fst ?kept)"
      using a by (simp add: distinct_map_filter del: filter.simps)
    then have d': "distinct (map fst (map (\<lambda>(k, v). (k, nullish (opt_index v i) JNull)) ?kept))"
      by (simp add: comp_def case_prod_unfold del: filter.simps)
    have "(k', nullish (opt_index (JArr ys) i) JNull)
            \<in> set (map (\<lambda>(k, v). (k, nullish (opt_index v i) JNull)) ?kept)"
      using mem by (force simp del: filter.simps)
    then have "Get (?row i) k' = nullish (opt_index (JArr ys) i) JNull"
      using Get_JObj_distinct [OF d'] by blast
    also have "\<dots> = JNull" using h by (simp add: opt_index_def nullish_def)
    finally show ?thesis using h by (simp del: filter.simps list.map)
  qed
  define rows where "rows = map ?row [0..<length xs]"
  have r1: "transformToRows (JObj ?all) = Returns (JArr rows)"
    using res by (simp only: rows_def)
  have r2: "length rows = length xs" by (simp add: rows_def)
  have r3: "\<forall>k' ys i. (k', JArr ys) \<in> set ps \<and> k' \<noteq> js ''__proto__''
                  \<and> length ys \<le> i \<and> i < length xs \<longrightarrow> Get (rows ! i) k' = JNull"
    using pad unfolding rows_def by blast
  show "\<exists>rows. transformToRows (JObj ?all) = Returns (JArr rows)
           \<and> length rows = length xs
           \<and> (\<forall>k' ys i. (k', JArr ys) \<in> set ps \<and> k' \<noteq> js ''__proto__''
                  \<and> length ys \<le> i \<and> i < length xs \<longrightarrow> Get (rows ! i) k' = JNull)"
    using r1 r2 r3 by blast
next
  show "transformToRows (JObj [(js ''a'', JArr [JNum (Num 1), JNum (Num 2), JNum (Num 3)]),
                            (js ''b'', JArr [JNum (Num 10)])]) =
       Returns (JArr [JObj [(js ''a'', JNum (Num 1)), (js ''b'', JNum (Num 10))],
                            JObj [(js ''a'', JNum (Num 2)), (js ''b'', JNull)],
                            JObj [(js ''a'', JNum (Num 3)), (js ''b'', JNull)]])"
    by (simp add: rows_eval js_def upt_conv_Cons)
qed

text \<open>
  C3. The claim asks for \<^verbatim>\<open>null\<close> at the positions out of range of any key whose array
  is shorter than the row count. For the key \<^verbatim>\<open>__proto__\<close> the code does not do it: in
  \<^verbatim>\<open>JSON.parse('{"a": [1, 2], "__proto__": [5]}')\<close> the array of \<^verbatim>\<open>__proto__\<close> is shorter
  than the row count 2, and the two rows returned have the key \<^verbatim>\<open>a\<close> only, where the
  claim has \<^verbatim>\<open>{a: 1, __proto__: 5}\<close> and \<^verbatim>\<open>{a: 2, __proto__: null}\<close>. (For every other
  key the rows are padded, as \<open>transformToRows_pads_short_columns\<close> shows.)
\<close>

theorem transformToRows_proto_key_not_padded:
  "transformToRows (JObj [(js ''a'', JArr [JNum (Num 1), JNum (Num 2)]),
                          (js ''__proto__'', JArr [JNum (Num 5)])]) =
     Returns (JArr [JObj [(js ''a'', JNum (Num 1))], JObj [(js ''a'', JNum (Num 2))]])"
  by (simp add: rows_eval js_def upt_conv_Cons)

text \<open>
  Read off the theorem: two rows, and the only key of row 1 is \<^verbatim>\<open>a\<close>.
\<close>

theorem transformToRows_proto_key_not_padded_witness:
  "\<exists>rows. transformToRows (JObj [(js ''a'', JArr [JNum (Num 1), JNum (Num 2)]),
                                  (js ''__proto__'', JArr [JNum (Num 5)])]) = Returns (JArr rows)
      \<and> length rows = 2
      \<and> Object_keys (rows ! 1) = Inr [js ''a'']"
  using transformToRows_proto_key_not_padded
  by (simp add: Object_keys_JObj)




text \<open>
  C10. When the first key in enumeration order binds an array, the rows are exactly
  those of its indices: row \<open>i\<close> reads index \<open>i\<close> of every field, so the elements of a
  longer array beyond the length of the first one appear in no row. When the value
  bound to the first key has no length (\<^verbatim>\<open>undefined\<close>, \<^verbatim>\<open>null\<close>, a boolean or a number
  has none), the result is the empty array, whatever the other keys bind.
\<close>

theorem transformToRows_first_key_decides:
  "(\<forall>k xs ps. distinct (map fst ((k, JArr xs) # ps)) \<and> length xs < 2 ^ 32 \<longrightarrow>
      transformToRows (JObj ((k, JArr xs) # ps)) =
        Returns (JArr (map (\<lambda>i. JObj (map (\<lambda>(k, v). (k, nullish (opt_index v i) JNull))
               (filter (\<lambda>(k, v). k \<noteq> js ''__proto__'') ((k, JArr xs) # ps)))) [0..<length xs])))
   \<and> (\<forall>k v ps. opt_length v = JUndefined \<longrightarrow>
        transformToRows (JObj ((k, v) # ps)) = Returns (JArr []))
   \<and> (\<forall>v. v = JUndefined \<or> v = JNull \<or> (\<exists>b. v = JBool b) \<or> (\<exists>x. v = JNum x) \<longrightarrow>
        opt_length v = JUndefined)"
proof (intro conjI allI impI)
  fix k :: jsstring and xs :: "jsval list" and ps :: "(jsstring \<times> jsval) list"
  assume "distinct (map fst ((k, JArr xs) # ps)) \<and> length xs < 2 ^ 32"
  then show "transformToRows (JObj ((k, JArr xs) # ps)) =
        Returns (JArr (map (\<lambda>i. JObj (map (\<lambda>(k, v). (k, nullish (opt_index v i) JNull))
               (filter (\<lambda>(k, v). k \<noteq> js ''__proto__'') ((k, JArr xs) # ps)))) [0..<length xs]))"
    using transformToRows_JObj_JArr by blast
next
  fix k :: jsstring and v :: jsval and ps :: "(jsstring \<times> jsval) list"
  assume "opt_length v = JUndefined"
  then show "transformToRows (JObj ((k, v) # ps)) = Returns (JArr [])"
    by (rule transformToRows_first_no_length)
next
  fix v :: jsval
  assume "v = JUndefined \<or> v = JNull \<or> (\<exists>b. v = JBool b) \<or> (\<exists>x. v = JNum x)"
  then show "opt_length v = JUndefined" by (auto simp: opt_length_def)
qed

text \<open>
  The theorem at \<^verbatim>\<open>{a: [1], b: [10, 20, 30]}\<close> and at \<^verbatim>\<open>{a: null, b: [10, 20]}\<close>.
\<close>

theorem transformToRows_first_key_decides_witness:
  "transformToRows (JObj [(js ''a'', JArr [JNum (Num 1)]),
                          (js ''b'', JArr [JNum (Num 10), JNum (Num 20), JNum (Num 30)])]) =
     Returns (JArr [JObj [(js ''a'', JNum (Num 1)), (js ''b'', JNum (Num 10))]])
   \<and> transformToRows (JObj [(js ''a'', JNull),
                            (js ''b'', JArr [JNum (Num 10), JNum (Num 20)])]) =
     Returns (JArr [])"
proof -
  have d: "distinct (map fst [(js ''a'', JArr [JNum (Num 1)]),
             (js ''b'', JArr [JNum (Num 10), JNum (Num 20), JNum (Num 30)])])
           \<and> length [JNum (Num 1)] < 2 ^ 32"
    by (simp add: js_def)
  have n: "opt_length JNull = JUndefined" by (simp add: opt_length_def)
  from transformToRows_first_key_decides d n show ?thesis
    by (simp add: js_def opt_index_def nullish_def)
qed

section \<open>Properties of the built-ins\<close>

subsection \<open>Years, months and days of a time value\<close>

lemma DayFromYear_pred: "DayFromYear (y - 1) = DayFromYear y - DaysInYear (y - 1)"
  using DayFromYear_Suc [of "y - 1"] by simp

lemma DaysInYear_le_366: "DaysInYear y \<le> 366"
  by (simp add: DaysInYear_def)

lemma DaysInYear_cases: "DaysInYear y = 365 \<or> DaysInYear y = 366"
  by (simp add: DaysInYear_def)

lemma DayFromYear_mono: "y \<le> z \<Longrightarrow> DayFromYear y \<le> DayFromYear z"
proof (induction z rule: int_ge_induct)
  case base
  show ?case by simp
next
  case (step i)
  then show ?case
    using DayFromYear_Suc [of i] DaysInYear_ge_365 [of i] by simp
qed

lemma DayFromYear_1970: "DayFromYear 1970 = 0"
  by (simp add: DayFromYear_def)

lemma DayFromYear_upper: "1970 \<le> z \<Longrightarrow> DayFromYear z \<le> 366 * (z - 1970)"
proof (induction z rule: int_ge_induct)
  case base
  show ?case by (simp add: DayFromYear_1970)
next
  case (step i)
  then show ?case
    using DayFromYear_Suc [of i] DaysInYear_le_366 [of i] by simp
qed

lemma DayFromYear_upper_neg: "z \<le> 1970 \<Longrightarrow> DayFromYear z \<le> 365 * (z - 1970)"
proof (induction z rule: int_le_induct)
  case base
  show ?case by (simp add: DayFromYear_1970)
next
  case (step i)
  then show ?case
    using DayFromYear_pred [of i] DaysInYear_ge_365 [of "i - 1"] by simp
qed

lemma DayFromYear_estimate:
  "DayFromYear (1970 + (if 0 \<le> d then d div 366 else d div 365)) \<le> d"
proof (cases "0 \<le> d")
  case True
  have "0 \<le> d div 366" using True by (simp add: pos_imp_zdiv_nonneg_iff)
  then have "DayFromYear (1970 + d div 366) \<le> 366 * (d div 366)"
    using DayFromYear_upper [of "1970 + d div 366"] by simp
  also have "\<dots> \<le> d"
    using mult_div_mod_eq [of 366 d] pos_mod_sign [of 366 d] by linarith
  finally show ?thesis using True by simp
next
  case False
  have "d div 365 \<le> 0" using False by (simp add: div_nonpos_pos_le0)
  then have "DayFromYear (1970 + d div 365) \<le> 365 * (d div 365)"
    using DayFromYear_upper_neg [of "1970 + d div 365"] by simp
  also have "\<dots> \<le> d"
    using mult_div_mod_eq [of 365 d] pos_mod_sign [of 365 d] by linarith
  finally show ?thesis using False by simp
qed

lemma year_search_bounds:
  "DayFromYear y \<le> d \<Longrightarrow>
   DayFromYear (year_search y d) \<le> d \<and> d < DayFromYear (year_search y d + 1)"
proof (induction y d rule: year_search.induct)
  case (1 y d)
  show ?case
  proof (cases "DayFromYear (y + 1) \<le> d")
    case True
    then show ?thesis using "1.IH" by (simp add: year_search.simps [of y d])
  next
    case False
    then show ?thesis using "1.prems" by (simp add: year_search.simps [of y d])
  qed
qed

text \<open>
  \<open>YearFromTime\<close> is the year the specification asks for: the one whose first day is
  not after the day of the time value, while the first day of the next year is.
\<close>

lemma YearFromTime_bounds:
  "DayFromYear (YearFromTime t) \<le> Day t \<and> Day t < DayFromYear (YearFromTime t + 1)"
  unfolding YearFromTime_def Let_def
  by (rule year_search_bounds) (rule DayFromYear_estimate)

lemma year_unique:
  assumes "DayFromYear y \<le> d" "d < DayFromYear (y + 1)"
    and "DayFromYear z \<le> d" "d < DayFromYear (z + 1)"
  shows "y = z"
proof (rule ccontr)
  assume "y \<noteq> z"
  then consider "y + 1 \<le> z" | "z + 1 \<le> y" by linarith
  then show False
  proof cases
    case 1
    then have "DayFromYear (y + 1) \<le> DayFromYear z" by (rule DayFromYear_mono)
    then show False using assms by linarith
  next
    case 2
    then have "DayFromYear (z + 1) \<le> DayFromYear y" by (rule DayFromYear_mono)
    then show False using assms by linarith
  qed
qed

lemma YearFromTime_unique:
  "DayFromYear y \<le> Day t \<Longrightarrow> Day t < DayFromYear (y + 1) \<Longrightarrow> YearFromTime t = y"
  using YearFromTime_bounds [of t] year_unique [of "YearFromTime t" "Day t" y] by blast

lemma Day_MakeDate: "0 \<le> time \<Longrightarrow> time < msPerDay \<Longrightarrow> Day (MakeDate day time) = day"
  by (simp add: Day_def MakeDate_def msPerDay_def)

lemma MakeDay_month: "0 \<le> m \<Longrightarrow> m \<le> 11 \<Longrightarrow>
   MakeDay y m dt = DayFromYear y + DaysBeforeMonth m y + dt - 1"
  by (simp add: MakeDay_def Let_def div_pos_pos_trivial mod_pos_pos_trivial)

lemma within_year:
  assumes "0 \<le> k" "k < DaysInYear y" "0 \<le> tm" "tm < msPerDay"
  shows "YearFromTime (MakeDate (DayFromYear y + k) tm) = y"
    and "DayWithinYear (MakeDate (DayFromYear y + k) tm) = k"
    and "InLeapYear (MakeDate (DayFromYear y + k) tm) = (if DaysInYear y = 366 then 1 else 0)"
proof -
  let ?t = "MakeDate (DayFromYear y + k) tm"
  have d: "Day ?t = DayFromYear y + k" using assms by (simp add: Day_MakeDate)
  show y: "YearFromTime ?t = y"
    by (rule YearFromTime_unique) (use assms d DayFromYear_Suc [of y] in auto)
  show "DayWithinYear ?t = k" by (simp add: DayWithinYear_def y d)
  show "InLeapYear ?t = (if DaysInYear y = 366 then 1 else 0)" by (simp add: InLeapYear_def y)
qed

lemma month_cases:
  fixes m :: int
  assumes "0 \<le> m" "m \<le> 11"
  shows "m = 0 \<or> m = 1 \<or> m = 2 \<or> m = 3 \<or> m = 4 \<or> m = 5 \<or> m = 6 \<or> m = 7 \<or> m = 8 \<or> m = 9 \<or> m = 10 \<or> m = 11"
  using assms by arith

text \<open>
  The time value made from a calendar date reads back as that date, and every time
  value is made from a calendar date.
\<close>

lemma date_roundtrip:
  assumes m: "0 \<le> m" "m \<le> 11"
    and dt: "1 \<le> dt" "dt \<le> DaysInMonth m y"
    and tm: "0 \<le> tm" "tm < msPerDay"
  shows "YearFromTime (MakeDate (MakeDay y m dt) tm) = y
       \<and> MonthFromTime (MakeDate (MakeDay y m dt) tm) = m
       \<and> DateFromTime (MakeDate (MakeDay y m dt) tm) = dt"
proof -
  define L :: int where "L = (if DaysInYear y = 366 then 1 else 0)"
  have Lb: "0 \<le> L" "L \<le> 1" by (simp_all add: L_def)
  have diy: "DaysInYear y = 365 + L"
    using DaysInYear_cases [of y] by (auto simp: L_def)
  have l1: "(if L = 1 then 1 else 0) = L" using Lb by auto
  have l2: "(if L = 1 then 29 else 28) = 28 + L" using Lb by auto
  note tab = DaysBeforeMonth_def DaysInMonth_def diy l1 l2
  define k where "k = DaysBeforeMonth m y + dt - 1"
  have md: "MakeDay y m dt = DayFromYear y + k"
    using m by (simp add: MakeDay_month k_def)
  have kb: "0 \<le> k \<and> k < DaysInYear y"
    using month_cases [OF m] dt Lb
    by (elim disjE) (simp_all add: k_def tab)
  note wy = within_year [of k y tm, folded md]
  have y: "YearFromTime (MakeDate (MakeDay y m dt) tm) = y" using wy(1) kb tm by simp
  have dw: "DayWithinYear (MakeDate (MakeDay y m dt) tm) = k" using wy(2) kb tm by simp
  have lp: "InLeapYear (MakeDate (MakeDay y m dt) tm) = L"
    using wy(3) kb tm by (simp add: L_def)
  have "MonthFromTime (MakeDate (MakeDay y m dt) tm) =
     (if k < 31 then 0
      else if k < 59 + L then 1
      else if k < 90 + L then 2
      else if k < 120 + L then 3
      else if k < 151 + L then 4
      else if k < 181 + L then 5
      else if k < 212 + L then 6
      else if k < 243 + L then 7
      else if k < 273 + L then 8
      else if k < 304 + L then 9
      else if k < 334 + L then 10
      else 11)"
    by (simp add: MonthFromTime_def Let_def dw lp)
  also have "\<dots> = m"
    using month_cases [OF m] dt Lb
    by (elim disjE) (simp_all add: k_def tab)
  finally have mo: "MonthFromTime (MakeDate (MakeDay y m dt) tm) = m" .
  have "DateFromTime (MakeDate (MakeDay y m dt) tm) =
     (if m = 0 then k + 1
      else if m = 1 then k - 30
      else if m = 2 then k - 58 - L
      else if m = 3 then k - 89 - L
      else if m = 4 then k - 119 - L
      else if m = 5 then k - 150 - L
      else if m = 6 then k - 180 - L
      else if m = 7 then k - 211 - L
      else if m = 8 then k - 242 - L
      else if m = 9 then k - 272 - L
      else if m = 10 then k - 303 - L
      else k - 333 - L)"
    by (simp add: DateFromTime_def Let_def mo dw lp)
  also have "\<dots> = dt"
    using month_cases [OF m]
    by (elim disjE) (simp_all add: k_def tab)
  finally have da: "DateFromTime (MakeDate (MakeDay y m dt) tm) = dt" .
  show ?thesis using y mo da by simp
qed

lemma time_value_is_a_date:
  "0 \<le> MonthFromTime now \<and> MonthFromTime now \<le> 11
   \<and> 1 \<le> DateFromTime now \<and> DateFromTime now \<le> DaysInMonth (MonthFromTime now) (YearFromTime now)
   \<and> now = MakeDate (MakeDay (YearFromTime now) (MonthFromTime now) (DateFromTime now)) (now mod msPerDay)"
proof -
  define y where "y = YearFromTime now"
  define k where "k = DayWithinYear now"
  define L :: int where "L = (if DaysInYear y = 366 then 1 else 0)"
  have Lb: "0 \<le> L" "L \<le> 1" by (simp_all add: L_def)
  have diy: "DaysInYear y = 365 + L"
    using DaysInYear_cases [of y] by (auto simp: L_def)
  have l1: "(if L = 1 then 1 else 0) = L" using Lb by auto
  have l2: "(if L = 1 then 29 else 28) = 28 + L" using Lb by auto
  note tab = DaysBeforeMonth_def DaysInMonth_def diy l1 l2
  have kb: "0 \<le> k" "k < 365 + L"
    using YearFromTime_bounds [of now] DayFromYear_Suc [of y]
    by (simp_all add: k_def DayWithinYear_def y_def [symmetric] diy)
  have lp: "InLeapYear now = L" by (simp add: InLeapYear_def L_def y_def)
  define m where "m = MonthFromTime now"
  have m: "m =
     (if k < 31 then 0
      else if k < 59 + L then 1
      else if k < 90 + L then 2
      else if k < 120 + L then 3
      else if k < 151 + L then 4
      else if k < 181 + L then 5
      else if k < 212 + L then 6
      else if k < 243 + L then 7
      else if k < 273 + L then 8
      else if k < 304 + L then 9
      else if k < 334 + L then 10
      else 11)"
    by (simp add: m_def MonthFromTime_def Let_def k_def [symmetric] lp)
  have mb: "0 \<le> m \<and> m \<le> 11" by (simp add: m)
  define dt where "dt = DateFromTime now"
  have dt: "dt =
     (if m = 0 then k + 1
      else if m = 1 then k - 30
      else if m = 2 then k - 58 - L
      else if m = 3 then k - 89 - L
      else if m = 4 then k - 119 - L
      else if m = 5 then k - 150 - L
      else if m = 6 then k - 180 - L
      else if m = 7 then k - 211 - L
      else if m = 8 then k - 242 - L
      else if m = 9 then k - 272 - L
      else if m = 10 then k - 303 - L
      else k - 333 - L)"
    by (simp add: dt_def DateFromTime_def Let_def k_def [symmetric] lp m_def [symmetric])
  have cases: "m = 0 \<or> m = 1 \<or> m = 2 \<or> m = 3 \<or> m = 4 \<or> m = 5 \<or> m = 6 \<or> m = 7 \<or> m = 8
      \<or> m = 9 \<or> m = 10 \<or> m = 11"
    using mb by (intro month_cases) simp_all
  have rng: "1 \<le> dt \<and> dt \<le> DaysInMonth m y \<and> DaysBeforeMonth m y + dt - 1 = k"
    using cases
  proof (elim disjE)
    assume "m = 0" then show ?thesis using m dt kb Lb by (simp add: tab split: if_splits)
  next
    assume "m = 1" then show ?thesis using m dt kb Lb by (simp add: tab split: if_splits)
  next
    assume "m = 2" then show ?thesis using m dt kb Lb by (simp add: tab split: if_splits)
  next
    assume "m = 3" then show ?thesis using m dt kb Lb by (simp add: tab split: if_splits)
  next
    assume "m = 4" then show ?thesis using m dt kb Lb by (simp add: tab split: if_splits)
  next
    assume "m = 5" then show ?thesis using m dt kb Lb by (simp add: tab split: if_splits)
  next
    assume "m = 6" then show ?thesis using m dt kb Lb by (simp add: tab split: if_splits)
  next
    assume "m = 7" then show ?thesis using m dt kb Lb by (simp add: tab split: if_splits)
  next
    assume "m = 8" then show ?thesis using m dt kb Lb by (simp add: tab split: if_splits)
  next
    assume "m = 9" then show ?thesis using m dt kb Lb by (simp add: tab split: if_splits)
  next
    assume "m = 10" then show ?thesis using m dt kb Lb by (simp add: tab split: if_splits)
  next
    assume "m = 11" then show ?thesis using m dt kb Lb by (simp add: tab split: if_splits)
  qed
  have "MakeDay y m dt = DayFromYear y + k"
    using mb rng by (simp add: MakeDay_month)
  also have "\<dots> = Day now" by (simp add: k_def DayWithinYear_def y_def)
  finally have "MakeDate (MakeDay y m dt) (now mod msPerDay) = now"
    by (simp add: MakeDate_def Day_def)
  then show ?thesis
    using mb rng by (simp add: y_def m_def dt_def)
qed

lemma time_fields_midnight:
  "HourFromTime (MakeDate d 0) = 0" "MinFromTime (MakeDate d 0) = 0"
  "SecFromTime (MakeDate d 0) = 0" "msFromTime (MakeDate d 0) = 0"
proof -
  have h: "d * 86400000 = d * 24 * 3600000" by simp
  have mi: "d * 86400000 = d * 1440 * 60000" by simp
  have se: "d * 86400000 = d * 86400 * 1000" by simp
  show "HourFromTime (MakeDate d 0) = 0"
    unfolding HourFromTime_def MakeDate_def msPerDay_def msPerHour_def by (simp only: h) simp
  show "MinFromTime (MakeDate d 0) = 0"
    unfolding MinFromTime_def MakeDate_def msPerDay_def msPerMinute_def by (simp only: mi) simp
  show "SecFromTime (MakeDate d 0) = 0"
    unfolding SecFromTime_def MakeDate_def msPerDay_def msPerSecond_def by (simp only: se) simp
  show "msFromTime (MakeDate d 0) = 0"
    unfolding msFromTime_def MakeDate_def msPerDay_def msPerSecond_def by (simp only: se) simp
qed

lemma DayFromYear_range:
  assumes "- 271821 \<le> y" "y \<le> 275760"
  shows "- 100000109 \<le> DayFromYear y" "DayFromYear y \<le> 99999744"
proof -
  have "DayFromYear (- 271821) \<le> DayFromYear y" using assms(1) by (rule DayFromYear_mono)
  then show "- 100000109 \<le> DayFromYear y" by (simp add: DayFromYear_def)
  have "DayFromYear y \<le> DayFromYear 275760" using assms(2) by (rule DayFromYear_mono)
  then show "DayFromYear y \<le> 99999744" by (simp add: DayFromYear_def)
qed

lemma DaysBeforeMonth_8: "DaysBeforeMonth 8 y = 243 \<or> DaysBeforeMonth 8 y = 244"
  by (simp add: DaysBeforeMonth_def)

lemma DaysBeforeMonth_7: "DaysBeforeMonth 7 y = 212 \<or> DaysBeforeMonth 7 y = 213"
  by (simp add: DaysBeforeMonth_def)

lemma TimeClip_sep1:
  assumes "- 271821 \<le> y" "y \<le> 275760"
  shows "TimeClip (MakeDate (MakeDay y 8 1) 0) = Num (MakeDate (MakeDay y 8 1) 0)"
  using DayFromYear_range [OF assms] DaysBeforeMonth_8 [of y]
  by (auto simp: TimeClip_def MakeDate_def MakeDay_month msPerDay_def)

lemma TimeClip_aug31:
  assumes "- 271821 \<le> y" "y \<le> 275760"
  shows "TimeClip (MakeDate (MakeDay y 7 31) 0) = Num (MakeDate (MakeDay y 7 31) 0)"
  using DayFromYear_range [OF assms] DaysBeforeMonth_7 [of y]
  by (auto simp: TimeClip_def MakeDate_def MakeDay_month msPerDay_def)

subsection \<open>Digits\<close>

lemma digits_lt_10: "d \<in> set (digits n) \<Longrightarrow> d < 10"
proof (induction n arbitrary: d rule: digits.induct)
  case (1 n)
  show ?case
  proof (cases "n < 10")
    case True
    then show ?thesis using "1.prems" by (simp add: digits.simps [of n])
  next
    case False
    then show ?thesis using "1.prems" "1.IH" by (auto simp: digits.simps [of n])
  qed
qed

lemma digits_not_Nil: "digits n \<noteq> []"
  by (simp add: digits.simps [of n])

lemma lt_pow_digits: "x < 10 ^ length (digits x)"
proof (induction x rule: digits.induct)
  case (1 n)
  show ?case
  proof (cases "n < 10")
    case True
    then show ?thesis by (simp add: digits.simps [of n])
  next
    case False
    have "n div 10 < 10 ^ length (digits (n div 10))" using False "1.IH" by simp
    then have "n div 10 + 1 \<le> 10 ^ length (digits (n div 10))" by simp
    then have "(n div 10 + 1) * 10 \<le> 10 ^ length (digits (n div 10)) * 10"
      by (rule mult_le_mono1)
    moreover have "n < (n div 10 + 1) * 10"
      using div_mult_mod_eq [of n 10] by (simp add: algebra_simps) 
    ultimately show ?thesis using False by (simp add: digits.simps [of n])
  qed
qed

lemma pow_digits_le: "0 < x \<Longrightarrow> 10 ^ (length (digits x) - 1) \<le> x"
proof (induction x rule: digits.induct)
  case (1 n)
  show ?case
  proof (cases "n < 10")
    case True
    then show ?thesis using "1.prems" by (simp add: digits.simps [of n])
  next
    case False
    then have "0 < n div 10" by (simp add: div_greater_zero_iff)
    then have "10 ^ (length (digits (n div 10)) - 1) \<le> n div 10" using False "1.IH" by simp
    then have "10 ^ (length (digits (n div 10)) - 1) * 10 \<le> n div 10 * 10"
      by (rule mult_le_mono1)
    also have "\<dots> \<le> n" by simp
    finally have "10 ^ (length (digits (n div 10)) - 1) * 10 \<le> n" .
    moreover obtain l where l: "length (digits (n div 10)) = Suc l"
      using digits_not_Nil [of "n div 10"] by (cases "digits (n div 10)") auto
    ultimately show ?thesis
      using False by (simp add: digits.simps [of n] l)
  qed
qed

lemma length_digits_le_21: assumes "x < 10 ^ 21" shows "length (digits x) \<le> 21"
proof (rule ccontr)
  assume "\<not> length (digits x) \<le> 21"
  then have l: "21 \<le> length (digits x) - 1" by simp
  have d0: "digits 0 = [0]" by (simp add: digits.simps [of 0])
  have "x \<noteq> 0"
  proof
    assume "x = 0"
    then have "length (digits x) = 1" using d0 by simp
    then show False using l by simp
  qed
  then have "0 < x" by simp
  then have "10 ^ (length (digits x) - 1) \<le> x" by (rule pow_digits_le)
  moreover have "(10::nat) ^ 21 \<le> 10 ^ (length (digits x) - 1)"
    using l by (rule power_increasing) simp
  ultimately show False using assms by linarith
qed

lemma length_digits_gt: "10 ^ k \<le> n \<Longrightarrow> k < length (digits n)"
proof (rule ccontr)
  assume a: "10 ^ k \<le> n" and "\<not> k < length (digits n)"
  then have "length (digits n) \<le> k" by simp
  then have "(10::nat) ^ length (digits n) \<le> 10 ^ k" by (intro power_increasing) simp_all
  then show False using lt_pow_digits [of n] a by linarith
qed

lemma is_digit_digit_char: "d < 10 \<Longrightarrow> is_digit (digit_char d)"
proof -
  assume "d < 10"
  then have "d \<in> {0, 1, 2, 3, 4, 5, 6, 7, 8, 9}" by auto
  then show ?thesis by (auto simp: is_digit_def digit_char_def)
qed

lemma digit_value_digit_char: "d < 10 \<Longrightarrow> digit_value (digit_char d) = d"
proof -
  assume "d < 10"
  then have "d \<in> {0, 1, 2, 3, 4, 5, 6, 7, 8, 9}" by auto
  then show ?thesis by (auto simp: digit_value_def digit_char_def)
qed

lemma decimal_all_digits: "c \<in> set (decimal n) \<Longrightarrow> is_digit c"
  by (auto simp: decimal_def dest: digits_lt_10 intro: is_digit_digit_char)

lemma decimal_not_Nil: "decimal n \<noteq> []"
  by (simp add: decimal_def digits_not_Nil)

lemma hd_decimal_is_digit: "is_digit (hd (decimal n))"
  using decimal_not_Nil [of n] decimal_all_digits [of "hd (decimal n)" n] by simp

lemma takeWhile_is_digit_decimal: "takeWhile is_digit (decimal n) = decimal n"
  by (simp add: takeWhile_eq_all_conv decimal_all_digits)

lemma is_digit_not_space: "is_digit c \<Longrightarrow> \<not> is_white_space c"
proof
  assume d: "is_digit c" and w: "is_white_space c"
  have u: "48 \<le> unat c" "unat c \<le> 57"
    using d by (simp_all add: is_digit_def word_le_nat_alt)
  from w have "unat c \<in> {9, 10, 11, 12, 13, 32, 160, 5760, 8232, 8233, 8239, 8287, 12288, 65279}
      \<or> (8192 \<le> unat c \<and> unat c \<le> 8202)"
    by (auto simp: is_white_space_def word_le_nat_alt)
  then show False using u by auto
qed

lemma is_digit_not_sign: "is_digit c \<Longrightarrow> c \<noteq> 0x2B \<and> c \<noteq> 0x2D"
  by (auto simp: is_digit_def)

lemma is_digit_not_T: "is_digit c \<Longrightarrow> [c] \<noteq> js ''T''"
  by (auto simp: is_digit_def js_def)

lemma pad_all_digits: "c \<in> set (pad w n) \<Longrightarrow> is_digit c"
  using is_digit_digit_char [of 0] by (auto simp: pad_def dest: decimal_all_digits)

lemma js_append: "js a @ js b = js (a @ b)"
  by (simp add: js_def)

lemma length_decimal_string_ge:
  assumes "10 ^ k \<le> \<bar>n\<bar>"
  shows "k < length (decimal_string n)"
proof -
  have "10 ^ k \<le> nat \<bar>n\<bar>" using assms by (simp add: le_nat_iff)
  then have "k < length (digits (nat \<bar>n\<bar>))" by (rule length_digits_gt)
  then show ?thesis by (auto simp: decimal_string_def decimal_def abs_if)
qed

subsection \<open>Printing a date\<close>

lemma ISO_year_no_T: "c \<in> set (ISO_year y) \<Longrightarrow> [c] \<noteq> js ''T''"
  by (auto simp: ISO_year_def js_def dest!: pad_all_digits simp: is_digit_def split: if_splits)

lemma split_first_date:
  "split_first (js ''T'') (ISO_year y @ js ''-'' @ mm @ js ''-'' @ dd @ js ''T'' @ rest) =
   ISO_year y @ js ''-'' @ mm @ js ''-'' @ dd"
  if "\<And>c. c \<in> set mm \<Longrightarrow> is_digit c" "\<And>c. c \<in> set dd \<Longrightarrow> is_digit c"
proof -
  have "\<And>c. c \<in> set (ISO_year y @ js ''-'' @ mm @ js ''-'' @ dd) \<Longrightarrow> [c] \<noteq> js ''T''"
  proof -
    fix c assume "c \<in> set (ISO_year y @ js ''-'' @ mm @ js ''-'' @ dd)"
    then consider "c \<in> set (ISO_year y)" | "c \<in> set (js ''-'')" | "c \<in> set mm" | "c \<in> set dd"
      by auto
    then show "[c] \<noteq> js ''T''"
    proof cases
      case 1 then show ?thesis by (rule ISO_year_no_T)
    next
      case 2 then show ?thesis by (simp add: js_def)
    next
      case 3 then show ?thesis using that(1) is_digit_not_T by blast
    next
      case 4 then show ?thesis using that(2) is_digit_not_T by blast
    qed
  qed
  then have "takeWhile (\<lambda>c. [c] \<noteq> js ''T'') ((ISO_year y @ js ''-'' @ mm @ js ''-'' @ dd) @ js ''T'' @ rest)
     = (ISO_year y @ js ''-'' @ mm @ js ''-'' @ dd) @ takeWhile (\<lambda>c. [c] \<noteq> js ''T'') (js ''T'' @ rest)"
    by (intro takeWhile_append2) auto
  then show ?thesis by (simp add: split_first_def js_def)
qed

lemma toISOString_midnight:
  assumes "0 \<le> m" "m \<le> 11" "1 \<le> dt" "dt \<le> DaysInMonth m y"
  shows "Date_toISOString (Num (MakeDate (MakeDay y m dt) 0)) =
     Inr (ISO_year y @ js ''-'' @ pad 2 (nat (m + 1)) @ js ''-'' @ pad 2 (nat dt)
          @ js ''T'' @ js ''00:00:00.000Z'')"
proof -
  have rt: "YearFromTime (MakeDate (MakeDay y m dt) 0) = y
       \<and> MonthFromTime (MakeDate (MakeDay y m dt) 0) = m
       \<and> DateFromTime (MakeDate (MakeDay y m dt) 0) = dt"
    by (rule date_roundtrip) (use assms in \<open>simp_all add: msPerDay_def\<close>)
  have p2: "pad 2 0 = js ''00''" and p3: "pad 3 0 = js ''000''"
    by (simp_all add: pad_def decimal_def digits.simps digit_char_def js_def numeral_2_eq_2)
  show ?thesis
    by (simp add: Date_toISOString_def rt time_fields_midnight p2 p3) (simp add: js_def)
qed

lemma pad_09: "pad 2 9 = js ''09''" and pad_01: "pad 2 (Suc 0) = js ''01''"
  and pad_08: "pad 2 8 = js ''08''" and pad_31: "pad 2 31 = js ''31''"
  by (simp_all add: pad_def decimal_def digits.simps digit_char_def js_def)

lemma js_digits_are_digits: "c \<in> set (js ''09'') \<or> c \<in> set (js ''01'') \<or> c \<in> set (js ''08'') \<or> c \<in> set (js ''31'') \<Longrightarrow> is_digit c"
  by (auto simp: js_def is_digit_def)

lemma start_string:
  assumes "- 271821 \<le> y" "y \<le> 275760"
  shows "new_Date (TimeClip (MakeDate (MakeDay y 8 1) 0)) = Num (MakeDate (MakeDay y 8 1) 0)"
    and "Date_toISOString (Num (MakeDate (MakeDay y 8 1) 0)) =
           Inr (ISO_year y @ js ''-'' @ js ''09'' @ js ''-'' @ js ''01'' @ js ''T'' @ js ''00:00:00.000Z'')"
proof -
  show "new_Date (TimeClip (MakeDate (MakeDay y 8 1) 0)) = Num (MakeDate (MakeDay y 8 1) 0)"
    by (simp add: TimeClip_sep1 [OF assms] new_Date_def)
  have "1 \<le> DaysInMonth 8 y" by (simp add: DaysInMonth_def)
  then show "Date_toISOString (Num (MakeDate (MakeDay y 8 1) 0)) =
           Inr (ISO_year y @ js ''-'' @ js ''09'' @ js ''-'' @ js ''01'' @ js ''T'' @ js ''00:00:00.000Z'')"
    using toISOString_midnight [of 8 1 y] by (simp add: pad_09 pad_01)
qed

lemma end_string:
  assumes "- 271821 \<le> y" "y \<le> 275760"
  shows "new_Date (TimeClip (MakeDate (MakeDay y 7 31) 0)) = Num (MakeDate (MakeDay y 7 31) 0)"
    and "Date_toISOString (Num (MakeDate (MakeDay y 7 31) 0)) =
           Inr (ISO_year y @ js ''-'' @ js ''08'' @ js ''-'' @ js ''31'' @ js ''T'' @ js ''00:00:00.000Z'')"
proof -
  show "new_Date (TimeClip (MakeDate (MakeDay y 7 31) 0)) = Num (MakeDate (MakeDay y 7 31) 0)"
    by (simp add: TimeClip_aug31 [OF assms] new_Date_def)
  have "31 \<le> DaysInMonth 7 y" by (simp add: DaysInMonth_def)
  then show "Date_toISOString (Num (MakeDate (MakeDay y 7 31) 0)) =
           Inr (ISO_year y @ js ''-'' @ js ''08'' @ js ''-'' @ js ''31'' @ js ''T'' @ js ''00:00:00.000Z'')"
    using toISOString_midnight [of 7 31 y] by (simp add: pad_08 pad_31)
qed

subsection \<open>Printing and parsing a number\<close>

lemma digits_value_snoc: "digits_value (cs @ [c]) = 10 * digits_value cs + digit_value c"
  by (simp add: digits_value_def)

lemma digits_value_decimal: "digits_value (decimal n) = n"
proof (induction n rule: digits.induct)
  case (1 n)
  show ?case
  proof (cases "n < 10")
    case True
    then show ?thesis
      by (simp add: decimal_def digits.simps [of n] digits_value_def digit_value_digit_char)
  next
    case False
    have "decimal n = decimal (n div 10) @ [digit_char (n mod 10)]"
      using False by (simp add: decimal_def digits.simps [of n])
    then show ?thesis
      using False "1.IH" by (simp add: digits_value_snoc digit_value_digit_char)
  qed
qed

lemma parseInt10_decimal: "parseInt10 (decimal n) = round_to_double (int n)"
proof -
  have nz: "decimal n \<noteq> []" by (rule decimal_not_Nil)
  have S: "dropWhile is_white_space (decimal n) = decimal n"
    using nz is_digit_not_space [OF hd_decimal_is_digit [of n]] by (simp add: dropWhile_eq_self_iff)
  have h: "hd (decimal n) \<noteq> 0x2B" "hd (decimal n) \<noteq> 0x2D"
    using is_digit_not_sign [OF hd_decimal_is_digit [of n]] by simp_all
  show ?thesis
    unfolding parseInt10_def Let_def S
    using nz h by (simp add: takeWhile_is_digit_decimal digits_value_decimal)
qed

lemma parseInt10_minus_decimal: "parseInt10 (js ''-'' @ decimal n) = round_to_double (- int n)"
proof -
  have m: "js ''-'' @ decimal n = 0x2D # decimal n" by (simp add: js_def)
  have w: "\<not> is_white_space 0x2D" by (simp add: is_white_space_def)
  have S: "dropWhile is_white_space (0x2D # decimal n) = 0x2D # decimal n"
    using w by simp
  show ?thesis
    unfolding parseInt10_def Let_def m S
    using decimal_not_Nil [of n]
    by (simp add: takeWhile_is_digit_decimal digits_value_decimal)
qed

lemma parseInt10_decimal_string: "parseInt10 (decimal_string n) = round_to_double n"
  by (simp add: decimal_string_def parseInt10_decimal parseInt10_minus_decimal)

lemma round_to_double_small: "\<bar>n\<bar> < 2 ^ 53 \<Longrightarrow> round_to_double n = Num n"
  by (simp add: round_to_double_def)

lemma round_to_double_minus:
  assumes "round_to_double n = Num m"
  shows "round_to_double (- n) = Num (- m)"
proof (cases "n = 0")
  case True
  then show ?thesis using assms by (simp add: round_to_double_def)
next
  case False
  then consider "n < 0" | "0 < n" by linarith
  then show ?thesis
    using assms
    by cases (auto simp: round_to_double_def Let_def split: if_splits)
qed

lemma round_to_double_1e21: "round_to_double (10 ^ 21) = Num (10 ^ 21)"
  by (simp add: round_to_double_def Let_def bitlen_def compute_floorlog)

lemma nat_toString_small: "x < 2 ^ 53 \<Longrightarrow> nat_toString x = decimal x"
proof -
  assume a: "x < 2 ^ 53"
  have "(2::nat) ^ 53 < 10 ^ 21" by simp
  then have "x < 10 ^ 21" using a by linarith
  then show ?thesis using a by (simp add: nat_toString_def)
qed

lemma Number_toString_small: "\<bar>n\<bar> < 2 ^ 53 \<Longrightarrow> Number_toString (Num n) = decimal_string n"
proof -
  assume a: "\<bar>n\<bar> < 2 ^ 53"
  have "nat \<bar>n\<bar> < 2 ^ 53" using a by (simp add: nat_less_iff)
  then have "nat_toString (nat \<bar>n\<bar>) = decimal (nat \<bar>n\<bar>)" by (rule nat_toString_small)
  then show ?thesis
    by (auto simp: Number_toString_def decimal_string_def abs_if split: if_splits)
qed

lemma shortest_from_rounds:
  "rounds_to x x \<Longrightarrow> rounds_to (shortest_from x d k) x"
proof (induction x d k rule: shortest_from.induct)
  case (1 x d k)
  show ?case
  proof (cases "d \<le> k")
    case True
    then show ?thesis using "1.prems" by (simp add: shortest_from.simps [of x d k])
  next
    case False
    then show ?thesis
      using "1.IH" "1.prems"
      by (simp add: shortest_from.simps [of x d k] Let_def)
  qed
qed

lemma shortest_from_le:
  "x < 10 ^ d \<Longrightarrow> shortest_from x d k \<le> 10 ^ d"
proof (induction x d k rule: shortest_from.induct)
  case (1 x d k)
  show ?case
  proof (cases "d \<le> k")
    case True
    then show ?thesis using "1.prems" by (simp add: shortest_from.simps [of x d k])
  next
    case False
    define p :: nat where "p = 10 ^ (d - k)"
    have pd: "(10::nat) ^ d = 10 ^ k * p"
      using False by (simp add: p_def flip: power_add)
    have lo: "x div p * p \<le> x" by simp
    have "x div p < 10 ^ k"
      using "1.prems" pd by (simp add: div_less_iff_less_mult p_def mult.commute)
    then have "x div p + 1 \<le> 10 ^ k" by simp
    then have "(x div p + 1) * p \<le> 10 ^ k * p" by (rule mult_le_mono1)
    then have hi: "x div p * p + p \<le> 10 ^ d" by (simp add: pd)
    have lo': "x div p * p \<le> 10 ^ d" using lo "1.prems" by linarith
    show ?thesis
      using False "1.IH" "1.prems" hi lo'
      by (simp add: shortest_from.simps [of x d k] Let_def flip: p_def)
  qed
qed

lemma nat_toString_double:
  assumes d: "rounds_to x x" and b: "x < 10 ^ 21"
  shows "\<exists>c. nat_toString x = decimal c \<and> rounds_to c x"
proof (cases "x < 2 ^ 53")
  case True
  then show ?thesis using d by (auto simp: nat_toString_small)
next
  case False
  define c where "c = shortest_from x (length (digits x)) 1"
  have r: "rounds_to c x" unfolding c_def using d by (rule shortest_from_rounds)
  have "c \<le> 10 ^ length (digits x)"
    unfolding c_def by (rule shortest_from_le) (rule lt_pow_digits)
  also have "\<dots> \<le> 10 ^ 21"
    using length_digits_le_21 [OF b] by (intro power_increasing) simp_all
  finally have le: "c \<le> 10 ^ 21" .
  have "c \<noteq> 10 ^ 21"
  proof
    assume "c = 10 ^ 21"
    then have "Num (int x) = Num (10 ^ 21)"
      using r round_to_double_1e21 by (simp add: rounds_to_def)
    then have "int x = 10 ^ 21" by simp
    then have "x = 10 ^ 21" by (metis of_nat_eq_iff of_nat_numeral of_nat_power)
    then show False using b by simp
  qed
  then have "c < 10 ^ 21" using le by simp
  then have "nat_toString x = decimal c"
    using False by (simp add: nat_toString_def c_def)
  then show ?thesis using r by blast
qed

lemma parseInt10_Number_toString:
  assumes d: "round_to_double n = Num n" and b: "\<bar>n\<bar> < 10 ^ 21"
  shows "parseInt10 (Number_toString (Num n)) = Num n"
proof (cases "n < 0")
  case False
  have "rounds_to (nat n) (nat n)" using d False by (simp add: rounds_to_def)
  moreover have "nat n < 10 ^ 21" using b False by (simp add: nat_less_iff)
  ultimately obtain c where c: "nat_toString (nat n) = decimal c" "rounds_to c (nat n)"
    using nat_toString_double by blast
  show ?thesis
    using False c by (simp add: Number_toString_def parseInt10_decimal rounds_to_def)
next
  case True
  have "round_to_double (- n) = Num (- n)"
    using d by (rule round_to_double_minus)
  then have "rounds_to (nat (- n)) (nat (- n))" using True by (simp add: rounds_to_def)
  moreover have "nat (- n) < 10 ^ 21" using b True by (simp add: nat_less_iff)
  ultimately obtain c where c: "nat_toString (nat (- n)) = decimal c" "rounds_to c (nat (- n))"
    using nat_toString_double by blast
  have "round_to_double (int c) = Num (- n)" using c(2) True by (simp add: rounds_to_def)
  then have "round_to_double (- int c) = Num (- (- n))" by (rule round_to_double_minus)
  then show ?thesis
    using True c(1) by (simp add: Number_toString_def parseInt10_minus_decimal)
qed

subsection \<open>Evaluation\<close>

lemmas num_eval = Number_toString_def nat_toString_def exponent_form_def shortest_from.simps
  rounds_to_def round_to_double_def bitlen_def compute_floorlog decimal_def digits.simps
  digit_char_def js_def Let_def

lemmas parse_eval = parseInt_def parseInt10_def is_white_space_def is_digit_def digit_value_def
  digits_value_def

lemmas date_eval = new_Date_def Date_UTC_def MakeFullYear_def FullYear_def TimeClip_def MakeDate_def
  MakeDay_def MakeTime_def DaysBeforeMonth_def DayFromYear_def DaysInYear_def Date_toISOString_def
  ISO_year_def pad_def YearFromTime_def year_search.simps Day_def msPerDay_def msPerHour_def
  msPerMinute_def msPerSecond_def MonthFromTime_def DateFromTime_def DayWithinYear_def
  InLeapYear_def HourFromTime_def MinFromTime_def SecFromTime_def msFromTime_def

lemmas day_eval = MakeDate_def MakeDay_def DaysBeforeMonth_def DaysInMonth_def DayFromYear_def
  DaysInYear_def msPerDay_def

section \<open>Properties of academicYear\<close>

subsection \<open>The four ways a call ends\<close>

text \<open>
  The call ends by what \<^verbatim>\<open>parseInt\<close> gives: an error of the conversion to a string,
  \<open>NaN\<close>, a year whose two dates are time values (from -271821 to 275759), or another
  number.
\<close>

lemma academicYear_parse_throws:
  assumes "parseInt input = Inl e"
  shows "academicYear input = ([], Throws e)"
  using assms by (simp add: academicYear_def)

lemma academicYear_NaN:
  assumes "parseInt input = Inr NaN"
  shows "academicYear input = ([[JStr (js ''Invalid academic year input:''), input]], Returns JNull)"
  using assms by (simp add: academicYear_def)

lemma academicYear_in_range:
  assumes p: "parseInt input = Inr (Num y)" and r: "- 271821 \<le> y" "y \<le> 275759"
  shows "academicYear input =
     ([], Returns (JObj
        [(js ''start'', JStr (ISO_year (FullYear y) @ js ''-09-01'')),
         (js ''end'', JStr (ISO_year (FullYear (y + 1)) @ js ''-08-31'')),
         (js ''rangeFull'', JStr (Number_toString (Num y) @ js ''-'' @ Number_toString (Num (y + 1)))),
         (js ''rangeShort'', JStr (slice_last 2 (Number_toString (Num y)) @ js ''-''
                                    @ slice_last 2 (Number_toString (Num (y + 1))))),
         (js ''rangeCompact'', JStr (slice_last 2 (Number_toString (Num y))
                                      @ slice_last 2 (Number_toString (Num (y + 1))))),
         (js ''rangeMixed'', JStr (Number_toString (Num y) @ js ''-''
                                    @ slice_last 2 (Number_toString (Num (y + 1))))),
         (js ''label'', JStr (Number_toString (Num y) @ [0x2013] @ Number_toString (Num (y + 1))))]))"
proof -
  have add: "js_add (Num y) 1 = Num (y + 1)"
    using r by (simp add: js_add_def round_to_double_small)
  have fy: "- 271821 \<le> FullYear y" "FullYear y \<le> 275760"
    and fy1: "- 271821 \<le> FullYear (y + 1)" "FullYear (y + 1) \<le> 275760"
    using r by (auto simp: FullYear_def)
  have u1: "Date_UTC (Num y) 8 1 = TimeClip (MakeDate (MakeDay (FullYear y) 8 1) 0)"
    by (simp add: Date_UTC_def MakeFullYear_def MakeTime_def)
  have u2: "Date_UTC (Num (y + 1)) 7 31 = TimeClip (MakeDate (MakeDay (FullYear (y + 1)) 7 31) 0)"
    by (simp add: Date_UTC_def MakeFullYear_def MakeTime_def)
  have s1: "split_first (js ''T'')
       (ISO_year (FullYear y) @ js ''-'' @ js ''09'' @ js ''-'' @ js ''01'' @ js ''T'' @ js ''00:00:00.000Z'')
       = ISO_year (FullYear y) @ js ''-09-01''"
    using split_first_date [of "js ''09''" "js ''01''" "FullYear y" "js ''00:00:00.000Z''"]
      js_digits_are_digits by (simp add: js_def)
  have s2: "split_first (js ''T'')
       (ISO_year (FullYear (y + 1)) @ js ''-'' @ js ''08'' @ js ''-'' @ js ''31'' @ js ''T'' @ js ''00:00:00.000Z'')
       = ISO_year (FullYear (y + 1)) @ js ''-08-31''"
    using split_first_date [of "js ''08''" "js ''31''" "FullYear (y + 1)" "js ''00:00:00.000Z''"]
      js_digits_are_digits by (simp add: js_def)
  show ?thesis
    unfolding academicYear_def p
    by (simp add: Let_def add u1 u2 start_string [OF fy] end_string [OF fy1] s1 s2
        del: append_assoc)
qed

lemma start_invalid:
  assumes "y < - 271821 \<or> 275760 < y"
  shows "new_Date (Date_UTC (Num y) 8 1) = NaN"
proof -
  have fy: "FullYear y = y" using assms by (auto simp: FullYear_def)
  have "MakeDay y 8 1 < - 100000000 \<or> 100000000 < MakeDay y 8 1"
  proof (rule disjE [OF assms])
    assume "y < - 271821"
    then have "y + 1 \<le> - 271821" by simp
    then have "DayFromYear (y + 1) \<le> DayFromYear (- 271821)" by (rule DayFromYear_mono)
    then have "DayFromYear y + DaysInYear y \<le> - 100000109"
      by (simp add: DayFromYear_Suc) (simp add: DayFromYear_def)
    then show ?thesis
      using DaysInYear_ge_365 [of y] DaysBeforeMonth_8 [of y] by (auto simp: MakeDay_month)
  next
    assume "275760 < y"
    then have "275761 \<le> y" by simp
    then have "DayFromYear 275761 \<le> DayFromYear y" by (rule DayFromYear_mono)
    then have "100000110 \<le> DayFromYear y" by (simp add: DayFromYear_def)
    then show ?thesis
      using DaysBeforeMonth_8 [of y] by (auto simp: MakeDay_month)
  qed
  then have "TimeClip (MakeDate (MakeDay y 8 1) 0) = NaN"
    by (auto simp: TimeClip_def MakeDate_def msPerDay_def)
  then show ?thesis
    by (simp add: Date_UTC_def MakeFullYear_def fy MakeTime_def new_Date_def)
qed

lemma end_invalid_275761:
  "new_Date (Date_UTC (Num 275761) 7 31) = NaN"
  by (simp add: Date_UTC_def MakeFullYear_def FullYear_def MakeTime_def new_Date_def TimeClip_def
      MakeDate_def MakeDay_def DayFromYear_def DaysBeforeMonth_def DaysInYear_def msPerDay_def)

lemma academicYear_out_of_range:
  assumes p: "parseInt input = Inr (Num y)" and r: "y < - 271821 \<or> 275759 < y"
  shows "academicYear input = ([], Throws RangeError)"
proof (cases "y = 275760")
  case True
  have add: "js_add (Num y) 1 = Num 275761"
    using True by (simp add: js_add_def round_to_double_small)
  have fy: "- 271821 \<le> FullYear y" "FullYear y \<le> 275760"
    using True by (auto simp: FullYear_def)
  have u1: "Date_UTC (Num y) 8 1 = TimeClip (MakeDate (MakeDay (FullYear y) 8 1) 0)"
    by (simp add: Date_UTC_def MakeFullYear_def MakeTime_def)
  show ?thesis
    unfolding academicYear_def p
    by (simp add: Let_def add u1 start_string [OF fy] end_invalid_275761 Date_toISOString_def)
next
  case False
  then have "y < - 271821 \<or> 275760 < y" using r by linarith
  then have "new_Date (Date_UTC (Num y) 8 1) = NaN" by (rule start_invalid)
  then show ?thesis
    unfolding academicYear_def p by (simp add: Let_def Date_toISOString_def)
qed

lemma academicYear_infinite:
  assumes "parseInt input = Inr PosInfinity \<or> parseInt input = Inr NegInfinity"
  shows "academicYear input = ([], Throws RangeError)"
  using assms
  by (auto simp: academicYear_def Let_def Date_UTC_def MakeFullYear_def new_Date_def
      Date_toISOString_def)

lemma academicYear_same_year:
  assumes "parseInt a = Inr year" "parseInt b = Inr year" "year \<noteq> NaN"
  shows "academicYear a = academicYear b"
  using assms by (simp add: academicYear_def)

lemmas academicYear_eval = academicYear_def js_add_def split_first_def slice_last_def
  parse_eval num_eval date_eval

lemma parseInt_2025_string: "parseInt (JStr (js ''2025'')) = Inr (Num 2025)"
  by (simp add: parse_eval num_eval)

lemma ISO_year_2025: "ISO_year 2025 = js ''2025''" "ISO_year 2026 = js ''2026''"
  by (simp_all add: ISO_year_def pad_def num_eval)

lemma parseInt_abc: "parseInt (JStr (js ''abc'')) = Inr NaN"
  by (simp add: parse_eval js_def)

lemma parseInt_2099: "parseInt (JNum (Num 2099)) = Inr (Num 2099)"
  by (simp add: parse_eval num_eval)

lemma decimal_string_2099: "decimal_string 2099 = js ''2099''" "decimal_string 2100 = js ''2100''"
  by (simp_all add: decimal_string_def num_eval)

lemma parseInt_1e21: "parseInt (JNum (Num (10 ^ 21))) = Inr (Num 1)"
  by (simp add: parse_eval num_eval)

lemma parseInt_1e21_string: "parseInt (JStr (js ''1000000000000000000000'')) = Inr (Num (10 ^ 21))"
  by (simp add: parse_eval num_eval)

subsection \<open>Claims about academicYear\<close>

text \<open>
  C2, as amended. For every input that \<open>academicYear\<close> parses to a year from -271821 to
  275759 other than -1, ..., 99, the \<^verbatim>\<open>start\<close> field is the ISO string of September 1 of
  that year in UTC and the \<^verbatim>\<open>end\<close> field that of August 31 of the next year: the date
  that \<^verbatim>\<open>Date.UTC\<close> makes has that year, month and day, and the string is the year,
  then \<^verbatim>\<open>-09-01\<close> or \<^verbatim>\<open>-08-31\<close>. The year is written as \<open>ISO_year\<close> has it; from 1000
  to 9999 that is its four decimal digits.
\<close>

theorem academicYear_start_end:
  "(\<forall>input y. parseInt input = Inr (Num y) \<and> - 271821 \<le> y \<and> y \<le> 275759 \<and> (y < - 1 \<or> 99 < y) \<longrightarrow>
     (\<exists>obj t t'. academicYear input = ([], Returns obj)
        \<and> Get obj (js ''start'') = JStr (ISO_year y @ js ''-09-01'')
        \<and> Get obj (js ''end'') = JStr (ISO_year (y + 1) @ js ''-08-31'')
        \<and> Date_UTC (Num y) 8 1 = Num t
        \<and> YearFromTime t = y \<and> MonthFromTime t = 8 \<and> DateFromTime t = 1
        \<and> Date_UTC (Num (y + 1)) 7 31 = Num t'
        \<and> YearFromTime t' = y + 1 \<and> MonthFromTime t' = 7 \<and> DateFromTime t' = 31))
   \<and> (\<forall>y. 1000 \<le> y \<and> y \<le> 9999 \<longrightarrow>
          ISO_year y = decimal (nat y) \<and> length (decimal (nat y)) = 4)"
proof (intro allI conjI impI)
  fix input :: jsval and y :: int
  assume a: "parseInt input = Inr (Num y) \<and> - 271821 \<le> y \<and> y \<le> 275759 \<and> (y < - 1 \<or> 99 < y)"
  then have fy: "FullYear y = y" "FullYear (y + 1) = y + 1" by (auto simp: FullYear_def)
  have r: "- 271821 \<le> y" "y \<le> 275760" "- 271821 \<le> y + 1" "y + 1 \<le> 275760" using a by auto
  let ?obj = "JObj
        [(js ''start'', JStr (ISO_year y @ js ''-09-01'')),
         (js ''end'', JStr (ISO_year (y + 1) @ js ''-08-31'')),
         (js ''rangeFull'', JStr (Number_toString (Num y) @ js ''-'' @ Number_toString (Num (y + 1)))),
         (js ''rangeShort'', JStr (slice_last 2 (Number_toString (Num y)) @ js ''-''
                                    @ slice_last 2 (Number_toString (Num (y + 1))))),
         (js ''rangeCompact'', JStr (slice_last 2 (Number_toString (Num y))
                                      @ slice_last 2 (Number_toString (Num (y + 1))))),
         (js ''rangeMixed'', JStr (Number_toString (Num y) @ js ''-''
                                    @ slice_last 2 (Number_toString (Num (y + 1))))),
         (js ''label'', JStr (Number_toString (Num y) @ [0x2013] @ Number_toString (Num (y + 1))))]"
  have res: "academicYear input = ([], Returns ?obj)"
    using academicYear_in_range [of input y] a by (simp add: fy)
  have g1: "Get ?obj (js ''start'') = JStr (ISO_year y @ js ''-09-01'')"
    by (simp add: Get_def own_props_def)
  have g2: "Get ?obj (js ''end'') = JStr (ISO_year (y + 1) @ js ''-08-31'')"
    by (simp add: Get_def own_props_def js_def)
  have u1: "Date_UTC (Num y) 8 1 = Num (MakeDate (MakeDay y 8 1) 0)"
    using TimeClip_sep1 [OF r(1,2)] by (simp add: Date_UTC_def MakeFullYear_def fy MakeTime_def)
  have u2: "Date_UTC (Num (y + 1)) 7 31 = Num (MakeDate (MakeDay (y + 1) 7 31) 0)"
    using TimeClip_aug31 [OF r(3,4)] by (simp add: Date_UTC_def MakeFullYear_def fy MakeTime_def)
  have d1: "YearFromTime (MakeDate (MakeDay y 8 1) 0) = y
       \<and> MonthFromTime (MakeDate (MakeDay y 8 1) 0) = 8
       \<and> DateFromTime (MakeDate (MakeDay y 8 1) 0) = 1"
    by (rule date_roundtrip) (simp_all add: DaysInMonth_def msPerDay_def)
  have d2: "YearFromTime (MakeDate (MakeDay (y + 1) 7 31) 0) = y + 1
       \<and> MonthFromTime (MakeDate (MakeDay (y + 1) 7 31) 0) = 7
       \<and> DateFromTime (MakeDate (MakeDay (y + 1) 7 31) 0) = 31"
    by (rule date_roundtrip) (simp_all add: DaysInMonth_def msPerDay_def)
  show "\<exists>obj t t'. academicYear input = ([], Returns obj)
        \<and> Get obj (js ''start'') = JStr (ISO_year y @ js ''-09-01'')
        \<and> Get obj (js ''end'') = JStr (ISO_year (y + 1) @ js ''-08-31'')
        \<and> Date_UTC (Num y) 8 1 = Num t
        \<and> YearFromTime t = y \<and> MonthFromTime t = 8 \<and> DateFromTime t = 1
        \<and> Date_UTC (Num (y + 1)) 7 31 = Num t'
        \<and> YearFromTime t' = y + 1 \<and> MonthFromTime t' = 7 \<and> DateFromTime t' = 31"
    using res g1 g2 u1 u2 d1 d2 by blast
next
  fix y :: int
  assume a: "1000 \<le> y \<and> y \<le> 9999"
  have lo: "10 ^ 3 \<le> nat y" using a by (simp add: le_nat_iff)
  have hi: "nat y < 10 ^ 4" using a by (simp add: nat_less_iff)
  have "3 < length (digits (nat y))"
  proof (rule ccontr)
    assume "\<not> 3 < length (digits (nat y))"
    then have "length (digits (nat y)) \<le> 3" by simp
    then have "(10::nat) ^ length (digits (nat y)) \<le> 10 ^ 3" by (intro power_increasing) simp_all
    then show False using lt_pow_digits [of "nat y"] lo by linarith
  qed
  moreover have "length (digits (nat y)) \<le> 4"
  proof (rule ccontr)
    assume "\<not> length (digits (nat y)) \<le> 4"
    then have "4 \<le> length (digits (nat y)) - 1" by simp
    then have "(10::nat) ^ 4 \<le> 10 ^ (length (digits (nat y)) - 1)" by (intro power_increasing) simp_all
    moreover have "10 ^ (length (digits (nat y)) - 1) \<le> nat y"
      using lo by (intro pow_digits_le) simp
    ultimately show False using hi by linarith
  qed
  ultimately have l: "length (digits (nat y)) = 4" by simp
  then show "ISO_year y = decimal (nat y)"
    using a by (simp add: ISO_year_def pad_def)
  show "length (decimal (nat y)) = 4" using l by (simp add: decimal_def)
qed

text \<open>
  The theorem at the input \<^verbatim>\<open>"2025"\<close>.
\<close>

theorem academicYear_start_end_witness:
  "parseInt (JStr (js ''2025'')) = Inr (Num 2025)
   \<and> (\<exists>obj. academicYear (JStr (js ''2025'')) = ([], Returns obj)
         \<and> Get obj (js ''start'') = JStr (js ''2025-09-01'')
         \<and> Get obj (js ''end'') = JStr (js ''2026-08-31''))"
proof -
  have h: "parseInt (JStr (js ''2025'')) = Inr (Num 2025)
      \<and> - 271821 \<le> (2025::int) \<and> (2025::int) \<le> 275759 \<and> ((2025::int) < - 1 \<or> 99 < (2025::int))"
    by (simp add: parseInt_2025_string)
  from academicYear_start_end h
  obtain obj where "academicYear (JStr (js ''2025'')) = ([], Returns obj)"
    "Get obj (js ''start'') = JStr (ISO_year 2025 @ js ''-09-01'')"
    "Get obj (js ''end'') = JStr (ISO_year (2025 + 1) @ js ''-08-31'')"
    by blast
  then show ?thesis
    using parseInt_2025_string by (simp add: ISO_year_2025 js_append)
qed

text \<open>
  C2 as stated fails. The input \<^verbatim>\<open>"10000"\<close> parses to the year 10000, and the two fields
  are not of the form \<^verbatim>\<open>YYYY-MM-DD\<close>: \<^verbatim>\<open>toISOString\<close> writes a year above 9999 with a
  sign and six digits. The input \<^verbatim>\<open>"-271822"\<close> parses to a year whose September 1 is
  before the first date there is, and the call raises a \<^verbatim>\<open>RangeError\<close>: there is no
  \<^verbatim>\<open>start\<close> field. And the input 50 parses to the year 50, but the dates are those of
  1950 and 1951, beside the labels of 50 and 51: \<^verbatim>\<open>Date.UTC\<close> takes a year from 0 to 99
  for a year of the twentieth century.
\<close>

theorem academicYear_start_end_counterexample:
  "parseInt (JStr (js ''10000'')) = Inr (Num 10000)
   \<and> academicYear (JStr (js ''10000'')) =
     ([], Returns (JObj
        [(js ''start'', JStr (js ''+010000-09-01'')),
         (js ''end'', JStr (js ''+010001-08-31'')),
         (js ''rangeFull'', JStr (js ''10000-10001'')),
         (js ''rangeShort'', JStr (js ''00-01'')),
         (js ''rangeCompact'', JStr (js ''0001'')),
         (js ''rangeMixed'', JStr (js ''10000-01'')),
         (js ''label'', JStr (js ''10000'' @ [0x2013] @ js ''10001''))]))
   \<and> parseInt (JStr (js ''-271822'')) = Inr (Num (- 271822))
   \<and> academicYear (JStr (js ''-271822'')) = ([], Throws RangeError)
   \<and> parseInt (JNum (Num 50)) = Inr (Num 50)
   \<and> academicYear (JNum (Num 50)) =
     ([], Returns (JObj
        [(js ''start'', JStr (js ''1950-09-01'')),
         (js ''end'', JStr (js ''1951-08-31'')),
         (js ''rangeFull'', JStr (js ''50-51'')),
         (js ''rangeShort'', JStr (js ''50-51'')),
         (js ''rangeCompact'', JStr (js ''5051'')),
         (js ''rangeMixed'', JStr (js ''50-51'')),
         (js ''label'', JStr (js ''50'' @ [0x2013] @ js ''51''))]))"
proof (intro conjI)
  show "parseInt (JStr (js ''10000'')) = Inr (Num 10000)"
    by (simp add: parse_eval num_eval)
  show "academicYear (JStr (js ''10000'')) =
     ([], Returns (JObj
        [(js ''start'', JStr (js ''+010000-09-01'')),
         (js ''end'', JStr (js ''+010001-08-31'')),
         (js ''rangeFull'', JStr (js ''10000-10001'')),
         (js ''rangeShort'', JStr (js ''00-01'')),
         (js ''rangeCompact'', JStr (js ''0001'')),
         (js ''rangeMixed'', JStr (js ''10000-01'')),
         (js ''label'', JStr (js ''10000'' @ [0x2013] @ js ''10001''))]))"
    by (simp add: academicYear_eval)
  show p: "parseInt (JStr (js ''-271822'')) = Inr (Num (- 271822))"
    by (simp add: parse_eval num_eval)
  show "academicYear (JStr (js ''-271822'')) = ([], Throws RangeError)"
    by (rule academicYear_out_of_range [OF p]) simp
  show "parseInt (JNum (Num 50)) = Inr (Num 50)"
    by (simp add: parse_eval num_eval)
  show "academicYear (JNum (Num 50)) =
     ([], Returns (JObj
        [(js ''start'', JStr (js ''1950-09-01'')),
         (js ''end'', JStr (js ''1951-08-31'')),
         (js ''rangeFull'', JStr (js ''50-51'')),
         (js ''rangeShort'', JStr (js ''50-51'')),
         (js ''rangeCompact'', JStr (js ''5051'')),
         (js ''rangeMixed'', JStr (js ''50-51'')),
         (js ''label'', JStr (js ''50'' @ [0x2013] @ js ''51''))]))"
    by (simp add: academicYear_eval)
qed

text \<open>
  C4. \<^verbatim>\<open>academicYear(2025)\<close> returns exactly the object of the claim, and logs
  nothing; the separator of the label is the code unit U+2013.
\<close>

theorem academicYear_2025:
  "academicYear (JNum (Num 2025)) =
     ([], Returns (JObj
        [(js ''start'', JStr (js ''2025-09-01'')),
         (js ''end'', JStr (js ''2026-08-31'')),
         (js ''rangeFull'', JStr (js ''2025-2026'')),
         (js ''rangeShort'', JStr (js ''25-26'')),
         (js ''rangeCompact'', JStr (js ''2526'')),
         (js ''rangeMixed'', JStr (js ''2025-26'')),
         (js ''label'', JStr (js ''2025'' @ [0x2013] @ js ''2026''))]))"
  by (simp add: academicYear_eval)

text \<open>
  C6, as amended. \<open>academicYear\<close> returns \<^verbatim>\<open>null\<close> exactly when \<^verbatim>\<open>parseInt\<close> gives
  \<open>NaN\<close>; it then has called \<^verbatim>\<open>console.error\<close> once, with the message and the input,
  and done nothing else. For every input that parses to a year from -271821 to 275759
  it returns an object.
\<close>

theorem academicYear_null_iff_parse_fails:
  "(\<forall>input. snd (academicYear input) = Returns JNull \<longleftrightarrow> parseInt input = Inr NaN)
   \<and> (\<forall>input. parseInt input = Inr NaN \<longrightarrow>
         academicYear input =
           ([[JStr (js ''Invalid academic year input:''), input]], Returns JNull))
   \<and> (\<forall>input y. parseInt input = Inr (Num y) \<and> - 271821 \<le> y \<and> y \<le> 275759 \<longrightarrow>
         (\<exists>ps. academicYear input = ([], Returns (JObj ps))))"
proof (intro conjI allI impI)
  fix input
  show "snd (academicYear input) = Returns JNull \<longleftrightarrow> parseInt input = Inr NaN"
    by (auto simp: academicYear_def Let_def split: sum.splits)
next
  fix input assume "parseInt input = Inr NaN"
  then show "academicYear input =
           ([[JStr (js ''Invalid academic year input:''), input]], Returns JNull)"
    by (rule academicYear_NaN)
next
  fix input y
  assume "parseInt input = Inr (Num y) \<and> - 271821 \<le> y \<and> y \<le> 275759"
  then show "\<exists>ps. academicYear input = ([], Returns (JObj ps))"
    using academicYear_in_range [of input y] by blast
qed

text \<open>
  The theorem at the inputs \<^verbatim>\<open>"abc"\<close> and \<^verbatim>\<open>"2025"\<close>.
\<close>

theorem academicYear_null_iff_parse_fails_witness:
  "parseInt (JStr (js ''abc'')) = Inr NaN
   \<and> academicYear (JStr (js ''abc'')) =
       ([[JStr (js ''Invalid academic year input:''), JStr (js ''abc'')]], Returns JNull)
   \<and> parseInt (JStr (js ''2025'')) = Inr (Num 2025)
   \<and> (\<exists>ps. academicYear (JStr (js ''2025'')) = ([], Returns (JObj ps)))"
proof -
  have h: "parseInt (JStr (js ''2025'')) = Inr (Num 2025)
      \<and> - 271821 \<le> (2025::int) \<and> (2025::int) \<le> 275759"
    by (simp add: parseInt_2025_string)
  from academicYear_null_iff_parse_fails parseInt_abc h show ?thesis by blast
qed

text \<open>
  C6 as stated fails: the input 300000 parses, and the call raises a \<^verbatim>\<open>RangeError\<close>
  (\<^verbatim>\<open>toISOString\<close> of an invalid date) instead of returning an object.
\<close>

theorem academicYear_null_iff_parse_fails_counterexample:
  "parseInt (JNum (Num 300000)) = Inr (Num 300000)
   \<and> academicYear (JNum (Num 300000)) = ([], Throws RangeError)"
  by (simp add: academicYear_eval)

text \<open>
  C7, as amended. For every input that parses to a year of at least four decimal
  digits from -271821 to 275759 (the years for which an object is returned), the
  two-digit forms are the last two characters of the decimal strings of the year and
  of the year plus one, two characters each, and \<^verbatim>\<open>rangeShort\<close>, \<^verbatim>\<open>rangeCompact\<close> and
  \<^verbatim>\<open>rangeMixed\<close> are built from them as the claim says.
\<close>

theorem academicYear_two_digit_forms:
  "\<forall>input y. parseInt input = Inr (Num y) \<and> 1000 \<le> \<bar>y\<bar> \<and> - 271821 \<le> y \<and> y \<le> 275759 \<longrightarrow>
     (let full = decimal_string y;
          full' = decimal_string (y + 1);
          short = drop (length full - 2) full;
          short' = drop (length full' - 2) full'
      in length short = 2 \<and> length short' = 2
       \<and> (\<exists>obj. academicYear input = ([], Returns obj)
             \<and> Get obj (js ''rangeShort'') = JStr (short @ js ''-'' @ short')
             \<and> Get obj (js ''rangeCompact'') = JStr (short @ short')
             \<and> Get obj (js ''rangeMixed'') = JStr (full @ js ''-'' @ short')))"
proof (intro allI impI)
  fix input :: jsval and y :: int
  assume a: "parseInt input = Inr (Num y) \<and> 1000 \<le> \<bar>y\<bar> \<and> - 271821 \<le> y \<and> y \<le> 275759"
  then have True: "- 271821 \<le> y \<and> y \<le> 275759" by simp
  have s: "Number_toString (Num y) = decimal_string y"
    "Number_toString (Num (y + 1)) = decimal_string (y + 1)"
  proof -
    have "\<bar>y\<bar> < 2 ^ 53" "\<bar>y + 1\<bar> < 2 ^ 53" using True by auto
    then show "Number_toString (Num y) = decimal_string y"
      "Number_toString (Num (y + 1)) = decimal_string (y + 1)"
      by (simp_all only: Number_toString_small)
  qed
  have ay: "1000 \<le> \<bar>y\<bar>" using a by simp
  have "10 ^ 3 \<le> \<bar>y\<bar>" using ay by simp
  then have l1: "3 < length (decimal_string y)" by (rule length_decimal_string_ge)
  have "100 \<le> \<bar>y + 1\<bar>" using ay by linarith
  then have "10 ^ 2 \<le> \<bar>y + 1\<bar>" by simp
  then have l2: "2 < length (decimal_string (y + 1))" by (rule length_decimal_string_ge)
  let ?short = "drop (length (decimal_string y) - 2) (decimal_string y)"
  let ?short' = "drop (length (decimal_string (y + 1)) - 2) (decimal_string (y + 1))"
  let ?obj = "JObj
      [(js ''start'', JStr (ISO_year (FullYear y) @ js ''-09-01'')),
       (js ''end'', JStr (ISO_year (FullYear (y + 1)) @ js ''-08-31'')),
       (js ''rangeFull'', JStr (decimal_string y @ js ''-'' @ decimal_string (y + 1))),
       (js ''rangeShort'', JStr (?short @ js ''-'' @ ?short')),
       (js ''rangeCompact'', JStr (?short @ ?short')),
       (js ''rangeMixed'', JStr (decimal_string y @ js ''-'' @ ?short')),
       (js ''label'', JStr (decimal_string y @ [0x2013] @ decimal_string (y + 1)))]"
  have res: "academicYear input = ([], Returns ?obj)"
    using academicYear_in_range [of input y] a True by (simp add: s slice_last_def)
  have g: "Get ?obj (js ''rangeShort'') = JStr (?short @ js ''-'' @ ?short')"
    "Get ?obj (js ''rangeCompact'') = JStr (?short @ ?short')"
    "Get ?obj (js ''rangeMixed'') = JStr (decimal_string y @ js ''-'' @ ?short')"
    by (simp_all add: Get_def own_props_def js_def)
  have len: "length ?short = 2" "length ?short' = 2" using l1 l2 by simp_all
  show "let full = decimal_string y;
          full' = decimal_string (y + 1);
          short = drop (length full - 2) full;
          short' = drop (length full' - 2) full'
      in length short = 2 \<and> length short' = 2
       \<and> (\<exists>obj. academicYear input = ([], Returns obj)
             \<and> Get obj (js ''rangeShort'') = JStr (short @ js ''-'' @ short')
             \<and> Get obj (js ''rangeCompact'') = JStr (short @ short')
             \<and> Get obj (js ''rangeMixed'') = JStr (full @ js ''-'' @ short'))"
    using res g len by (simp add: Let_def del: append_assoc)
qed

text \<open>
  The theorem at 2099, where the last two characters of \<^verbatim>\<open>"2100"\<close> are \<^verbatim>\<open>"00"\<close>.
\<close>

theorem academicYear_two_digit_forms_witness:
  "parseInt (JNum (Num 2099)) = Inr (Num 2099) \<and> 1000 \<le> \<bar>2099 :: int\<bar>
   \<and> - 271821 \<le> (2099 :: int) \<and> (2099 :: int) \<le> 275759
   \<and> (\<exists>obj. academicYear (JNum (Num 2099)) = ([], Returns obj)
         \<and> Get obj (js ''rangeShort'') = JStr (js ''99-00'')
         \<and> Get obj (js ''rangeCompact'') = JStr (js ''9900'')
         \<and> Get obj (js ''rangeMixed'') = JStr (js ''2099-00''))"
proof -
  have h: "parseInt (JNum (Num 2099)) = Inr (Num 2099) \<and> 1000 \<le> \<bar>2099 :: int\<bar>
           \<and> - 271821 \<le> (2099 :: int) \<and> (2099 :: int) \<le> 275759"
    by (simp add: parseInt_2099)
  have d: "drop (length (js ''2099'') - 2) (js ''2099'') = js ''99''"
    "drop (length (js ''2100'') - 2) (js ''2100'') = js ''00''"
    by (simp_all add: js_def)
  from academicYear_two_digit_forms [rule_format, OF h]
  show ?thesis
    using h by (simp add: Let_def decimal_string_2099 d js_append)
qed

text \<open>
  C7 as stated fails: the input 275760 parses to a year of six decimal digits, and
  the call raises a \<^verbatim>\<open>RangeError\<close> (August 31 of the next year is past the last date
  there is), so that there is no \<^verbatim>\<open>rangeShort\<close>, \<^verbatim>\<open>rangeCompact\<close> or \<^verbatim>\<open>rangeMixed\<close>.
\<close>

theorem academicYear_two_digit_forms_counterexample:
  "parseInt (JNum (Num 275760)) = Inr (Num 275760)
   \<and> decimal_string 275760 = js ''275760''
   \<and> academicYear (JNum (Num 275760)) = ([], Throws RangeError)"
proof (intro conjI)
  show p: "parseInt (JNum (Num 275760)) = Inr (Num 275760)"
    by (simp add: parse_eval num_eval)
  show "decimal_string 275760 = js ''275760''"
    by (simp add: decimal_string_def num_eval)
  show "academicYear (JNum (Num 275760)) = ([], Throws RangeError)"
    by (rule academicYear_out_of_range [OF p]) simp
qed

subsection \<open>A year as a number and as a string\<close>

text \<open>
  For every integer year below \<open>10^21\<close> in magnitude (and a Number, that is, a double),
  \<open>academicYear\<close> applied to the number and to its decimal string give the same result:
  both inputs parse to that year.
\<close>

lemma academicYear_number_and_string_below_1e21:
  "\<forall>n. round_to_double n = Num n \<and> \<bar>n\<bar> < 10 ^ 21 \<longrightarrow>
       parseInt (JNum (Num n)) = Inr (Num n)
     \<and> parseInt (JStr (decimal_string n)) = Inr (Num n)
     \<and> academicYear (JNum (Num n)) = academicYear (JStr (decimal_string n))"
proof (intro allI impI)
  fix n :: int
  assume a: "round_to_double n = Num n \<and> \<bar>n\<bar> < 10 ^ 21"
  have p1: "parseInt (JNum (Num n)) = Inr (Num n)"
    using a by (simp add: parseInt_def parseInt10_Number_toString)
  have p2: "parseInt (JStr (decimal_string n)) = Inr (Num n)"
    using a by (simp add: parseInt_def parseInt10_decimal_string)
  show "parseInt (JNum (Num n)) = Inr (Num n)
     \<and> parseInt (JStr (decimal_string n)) = Inr (Num n)
     \<and> academicYear (JNum (Num n)) = academicYear (JStr (decimal_string n))"
    using p1 p2 academicYear_same_year [OF p1 p2] by simp
qed

text \<open>
  At 2025: \<^verbatim>\<open>academicYear(2025)\<close> equals \<^verbatim>\<open>academicYear("2025")\<close>.
\<close>

lemma academicYear_2025_number_and_string:
  "round_to_double 2025 = Num 2025 \<and> \<bar>2025 :: int\<bar> < 10 ^ 21
   \<and> decimal_string 2025 = js ''2025''
   \<and> academicYear (JNum (Num 2025)) = academicYear (JStr (js ''2025''))"
proof -
  have h: "round_to_double 2025 = Num 2025 \<and> \<bar>2025 :: int\<bar> < 10 ^ 21"
    by (simp add: round_to_double_def)
  have s: "decimal_string 2025 = js ''2025''"
    by (simp add: decimal_string_def num_eval)
  from academicYear_number_and_string_below_1e21 h s show ?thesis by metis
qed

text \<open>
  C8. The claim asks for the same result from an integer year and from its decimal
  string. At the integer \<open>10^21\<close> the code does not give it: \<^verbatim>\<open>parseInt\<close> makes a string
  of its argument first, the Number prints as \<^verbatim>\<open>1e+21\<close>, and the year read is 1, so
  that the call returns the object of the year 1 (with the dates of 1901 and 1902),
  while on the decimal string \<^verbatim>\<open>"1000000000000000000000"\<close> it parses the year \<open>10^21\<close>
  and raises a \<^verbatim>\<open>RangeError\<close>. (Below \<open>10^21\<close> the two results are the same, as
  \<open>academicYear_number_and_string_below_1e21\<close> shows.)
\<close>

theorem academicYear_1e21_number_and_string_differ:
  "round_to_double (10 ^ 21) = Num (10 ^ 21)
   \<and> decimal_string (10 ^ 21) = js ''1000000000000000000000''
   \<and> academicYear (JStr (js ''1000000000000000000000'')) = ([], Throws RangeError)
   \<and> academicYear (JNum (Num (10 ^ 21))) =
     ([], Returns (JObj
        [(js ''start'', JStr (js ''1901-09-01'')),
         (js ''end'', JStr (js ''1902-08-31'')),
         (js ''rangeFull'', JStr (js ''1-2'')),
         (js ''rangeShort'', JStr (js ''1-2'')),
         (js ''rangeCompact'', JStr (js ''12'')),
         (js ''rangeMixed'', JStr (js ''1-2'')),
         (js ''label'', JStr (js ''1'' @ [0x2013] @ js ''2''))]))"
proof (intro conjI)
  show "round_to_double (10 ^ 21) = Num (10 ^ 21)" by (rule round_to_double_1e21)
  show "decimal_string (10 ^ 21) = js ''1000000000000000000000''"
    by (simp add: decimal_string_def num_eval)
  show "academicYear (JStr (js ''1000000000000000000000'')) = ([], Throws RangeError)"
    by (rule academicYear_out_of_range [OF parseInt_1e21_string]) simp
  have "academicYear (JNum (Num (10 ^ 21))) =
     ([], Returns (JObj
        [(js ''start'', JStr (ISO_year (FullYear 1) @ js ''-09-01'')),
         (js ''end'', JStr (ISO_year (FullYear (1 + 1)) @ js ''-08-31'')),
         (js ''rangeFull'', JStr (Number_toString (Num 1) @ js ''-'' @ Number_toString (Num (1 + 1)))),
         (js ''rangeShort'', JStr (slice_last 2 (Number_toString (Num 1)) @ js ''-''
                                    @ slice_last 2 (Number_toString (Num (1 + 1))))),
         (js ''rangeCompact'', JStr (slice_last 2 (Number_toString (Num 1))
                                      @ slice_last 2 (Number_toString (Num (1 + 1))))),
         (js ''rangeMixed'', JStr (Number_toString (Num 1) @ js ''-''
                                    @ slice_last 2 (Number_toString (Num (1 + 1))))),
         (js ''label'', JStr (Number_toString (Num 1) @ [0x2013] @ Number_toString (Num (1 + 1))))]))"
    by (rule academicYear_in_range [OF parseInt_1e21]) simp_all
  then show "academicYear (JNum (Num (10 ^ 21))) =
     ([], Returns (JObj
        [(js ''start'', JStr (js ''1901-09-01'')),
         (js ''end'', JStr (js ''1902-08-31'')),
         (js ''rangeFull'', JStr (js ''1-2'')),
         (js ''rangeShort'', JStr (js ''1-2'')),
         (js ''rangeCompact'', JStr (js ''12'')),
         (js ''rangeMixed'', JStr (js ''1-2'')),
         (js ''label'', JStr (js ''1'' @ [0x2013] @ js ''2''))]))"
    by (simp add: FullYear_def ISO_year_def pad_def slice_last_def Number_toString_def
        nat_toString_def decimal_def digits.simps digit_char_def js_def)
qed

section \<open>Properties of currentAcademicYear\<close>

text \<open>
  C5. At every UTC calendar date and time of day, \<open>currentAcademicYear\<close> returns the
  calendar year minus 1 in the months January to August and the calendar year in the
  months September to December; every reading of the clock is such a date.
\<close>

theorem currentAcademicYear_by_month:
  "(\<forall>year month day tm.
      1 \<le> month \<and> month \<le> 12 \<and> 1 \<le> day \<and> day \<le> DaysInMonth (month - 1) year
      \<and> 0 \<le> tm \<and> tm < msPerDay \<longrightarrow>
      currentAcademicYear (MakeDate (MakeDay year (month - 1) day) tm) =
        (if month \<le> 8 then year - 1 else year))
   \<and> (\<forall>now. \<exists>year month day tm.
         1 \<le> month \<and> month \<le> 12 \<and> 1 \<le> day \<and> day \<le> DaysInMonth (month - 1) year
         \<and> 0 \<le> tm \<and> tm < msPerDay
         \<and> now = MakeDate (MakeDay year (month - 1) day) tm)"
proof (intro conjI allI impI)
  fix year month day tm :: int
  assume a: "1 \<le> month \<and> month \<le> 12 \<and> 1 \<le> day \<and> day \<le> DaysInMonth (month - 1) year
      \<and> 0 \<le> tm \<and> tm < msPerDay"
  have "YearFromTime (MakeDate (MakeDay year (month - 1) day) tm) = year
       \<and> MonthFromTime (MakeDate (MakeDay year (month - 1) day) tm) = month - 1
       \<and> DateFromTime (MakeDate (MakeDay year (month - 1) day) tm) = day"
    by (rule date_roundtrip) (use a in simp_all)
  then show "currentAcademicYear (MakeDate (MakeDay year (month - 1) day) tm) =
        (if month \<le> 8 then year - 1 else year)"
    by (simp add: currentAcademicYear_def Let_def)
next
  fix now :: int
  let ?y = "YearFromTime now" and ?m = "MonthFromTime now" and ?d = "DateFromTime now"
  have "1 \<le> ?m + 1 \<and> ?m + 1 \<le> 12 \<and> 1 \<le> ?d \<and> ?d \<le> DaysInMonth (?m + 1 - 1) ?y
         \<and> 0 \<le> now mod msPerDay \<and> now mod msPerDay < msPerDay
         \<and> now = MakeDate (MakeDay ?y (?m + 1 - 1) ?d) (now mod msPerDay)"
    using time_value_is_a_date [of now] by (simp add: msPerDay_def)
  then show "\<exists>year month day tm.
         1 \<le> month \<and> month \<le> 12 \<and> 1 \<le> day \<and> day \<le> DaysInMonth (month - 1) year
         \<and> 0 \<le> tm \<and> tm < msPerDay
         \<and> now = MakeDate (MakeDay year (month - 1) day) tm"
    by blast
qed

text \<open>
  The theorem on 2025-07-15, 2025-10-01, 2025-09-01 at midnight and on 2025-08-31 one
  millisecond before.
\<close>

theorem currentAcademicYear_by_month_witness:
  "MakeDate (MakeDay 2025 6 15) 0 = 1752537600000
   \<and> currentAcademicYear 1752537600000 = 2024
   \<and> MakeDate (MakeDay 2025 9 1) 0 = 1759276800000
   \<and> currentAcademicYear 1759276800000 = 2025
   \<and> MakeDate (MakeDay 2025 8 1) 0 = 1756684800000
   \<and> currentAcademicYear 1756684800000 = 2025
   \<and> MakeDate (MakeDay 2025 7 31) 86399999 = 1756684799999
   \<and> currentAcademicYear 1756684799999 = 2024"
proof -
  have v: "MakeDate (MakeDay 2025 6 15) 0 = 1752537600000"
    "MakeDate (MakeDay 2025 9 1) 0 = 1759276800000"
    "MakeDate (MakeDay 2025 8 1) 0 = 1756684800000"
    "MakeDate (MakeDay 2025 7 31) 86399999 = 1756684799999"
    by (simp_all add: day_eval)
  have h: "(1::int) \<le> 7 \<and> (7::int) \<le> 12 \<and> (1::int) \<le> 15 \<and> 15 \<le> DaysInMonth (7 - 1) 2025
      \<and> (0::int) \<le> 0 \<and> 0 < msPerDay"
    "(1::int) \<le> 10 \<and> (10::int) \<le> 12 \<and> (1::int) \<le> 1 \<and> 1 \<le> DaysInMonth (10 - 1) 2025
      \<and> (0::int) \<le> 0 \<and> 0 < msPerDay"
    "(1::int) \<le> 9 \<and> (9::int) \<le> 12 \<and> (1::int) \<le> 1 \<and> 1 \<le> DaysInMonth (9 - 1) 2025
      \<and> (0::int) \<le> 0 \<and> 0 < msPerDay"
    "(1::int) \<le> 8 \<and> (8::int) \<le> 12 \<and> (1::int) \<le> 31 \<and> 31 \<le> DaysInMonth (8 - 1) 2025
      \<and> (0::int) \<le> 86399999 \<and> 86399999 < msPerDay"
    by (simp_all add: day_eval)
  note t = currentAcademicYear_by_month [THEN conjunct1, rule_format]
  from t [OF h(1)] t [OF h(2)] t [OF h(3)] t [OF h(4)] show ?thesis
    by (simp add: v)
qed

end
